theory Spec2Isabelle
  imports Main
begin

section \<open>Cell values and table snapshots\<close>

text \<open>
  A table snapshot is the pandas DataFrame that \<^verbatim>\<open>get_table_data\<close> builds and that
  \<^verbatim>\<open>prepare_dataframe_for_upload\<close> reads through \<^verbatim>\<open>df.columns.tolist()\<close> and
  \<^verbatim>\<open>df.values.tolist()\<close>. The model keeps exactly these two lists. A cell is one of the
  Python values that such a list holds for the column types of the data model (text,
  numeric, boolean, timestamp, null). A float other than NaN, a Decimal or any further
  object is kept as \<open>PyObject s\<close>, where \<open>s\<close> is the text that \<^verbatim>\<open>str\<close> returns for it:
  binary floating point is not modelled. List-valued cells (array columns), for which
  \<^verbatim>\<open>pd.isna\<close> does not return a single truth value, are outside the model. What pandas
  does to the values when it builds the frame and when it hands them out as lists (the
  common type it chooses for the columns) lies in the library and is not modelled: the
  cells of the model are the values the loop of the normalizer meets.
\<close>

record datetime =
  year :: nat
  month :: nat
  day :: nat
  hour :: nat
  minute :: nat
  second :: nat
  microsecond :: nat

datatype cell =
    PyNone
  | NaN
  | NaT
  | Timestamp datetime
  | PyDatetime datetime
  | PyStr string
  | PyInt int
  | PyBool bool
  | PyObject string

record dataframe =
  columns :: "string list"
  rows :: "cell list list"

text \<open>\<^verbatim>\<open>len(df)\<close> is the number of rows, \<^verbatim>\<open>len(df.columns)\<close> the number of columns.
  A DataFrame is rectangular: every row has one value per column.\<close>

definition len_df :: "dataframe \<Rightarrow> nat" where
  "len_df df = length (rows df)"

definition rectangular :: "dataframe \<Rightarrow> bool" where
  "rectangular df = list_all (\<lambda>r. length r = length (columns df)) (rows df)"

text \<open>\<^verbatim>\<open>pd.DataFrame()\<close>: no columns and no rows.\<close>

definition empty_dataframe :: dataframe where
  "empty_dataframe = \<lparr>columns = [], rows = []\<rparr>"

section \<open>Text of Python values\<close>

definition digit_char :: "nat \<Rightarrow> char" where
  "digit_char d = ''0123456789'' ! (d mod 10)"

fun str_nat :: "nat \<Rightarrow> string" where
  "str_nat n = (if n < 10 then [digit_char n] else str_nat (n div 10) @ [digit_char (n mod 10)])"

declare str_nat.simps [simp del]

definition str_int :: "int \<Rightarrow> string" where
  "str_int i = (if i < 0 then CHR ''-'' # str_nat (nat (- i)) else str_nat (nat i))"

text \<open>Zero padding to a minimum width, as the numeric directives of \<^verbatim>\<open>strftime\<close> do.\<close>

definition zfill :: "nat \<Rightarrow> string \<Rightarrow> string" where
  "zfill w s = replicate (w - length s) (CHR ''0'') @ s"

text \<open>
  \<^verbatim>\<open>cell.strftime("%Y-%m-%d %H:%M:%S")\<close>. The directives \<^verbatim>\<open>%m %d %H %M %S\<close> are
  two-digit zero-padded decimals; \<^verbatim>\<open>%Y\<close> is the year with century, four digits for the
  years 1000 to 9999 (for earlier years the padding depends on the platform's C library;
  the model pads as the Python documentation lists it, and the theorems below only speak
  about four-digit years).
\<close>

definition strftime :: "datetime \<Rightarrow> string" where
  "strftime t =
     zfill 4 (str_nat (year t)) @ ''-'' @ zfill 2 (str_nat (month t)) @ ''-'' @
     zfill 2 (str_nat (day t)) @ '' '' @ zfill 2 (str_nat (hour t)) @ '':'' @
     zfill 2 (str_nat (minute t)) @ '':'' @ zfill 2 (str_nat (second t))"

text \<open>\<^verbatim>\<open>str(ts)\<close> of a timestamp is the ISO form with a space, with the fraction of a
  second when it is not zero.\<close>

definition str_datetime :: "datetime \<Rightarrow> string" where
  "str_datetime t =
     strftime t @ (if microsecond t = 0 then [] else ''.'' @ zfill 6 (str_nat (microsecond t)))"

fun py_str :: "cell \<Rightarrow> string" where
  "py_str PyNone = ''None''"
| "py_str NaN = ''nan''"
| "py_str NaT = ''NaT''"
| "py_str (Timestamp t) = str_datetime t"
| "py_str (PyDatetime t) = str_datetime t"
| "py_str (PyStr s) = s"
| "py_str (PyInt i) = str_int i"
| "py_str (PyBool b) = (if b then ''True'' else ''False'')"
| "py_str (PyObject s) = s"

section \<open>The normalizer\<close>

text \<open>\<^verbatim>\<open>pd.isna(cell)\<close> on a scalar: None, NaN and NaT are the missing values.\<close>

fun isna :: "cell \<Rightarrow> bool" where
  "isna PyNone = True"
| "isna NaN = True"
| "isna NaT = True"
| "isna _ = False"

text \<open>\<^verbatim>\<open>isinstance(cell, (pd.Timestamp, datetime))\<close>. NaT is an instance of datetime as
  well, but the \<^verbatim>\<open>pd.isna\<close> branch comes first and takes it.\<close>

fun as_datetime :: "cell \<Rightarrow> datetime option" where
  "as_datetime (Timestamp t) = Some t"
| "as_datetime (PyDatetime t) = Some t"
| "as_datetime _ = None"

definition clean_cell :: "cell \<Rightarrow> string" where
  "clean_cell c =
     (if isna c then ''''
      else (case as_datetime c of
              Some t \<Rightarrow> strftime t
            | None \<Rightarrow> py_str c))"

text \<open>The header row is \<^verbatim>\<open>df.columns.tolist()\<close>, a list of column names (strings); it
  goes through the same loop as the data rows.\<close>

definition data_to_upload :: "dataframe \<Rightarrow> cell list list" where
  "data_to_upload df = map PyStr (columns df) # rows df"

definition prepare_dataframe_for_upload :: "dataframe \<Rightarrow> string list list" where
  "prepare_dataframe_for_upload df = map (map clean_cell) (data_to_upload df)"



text \<open>The bounds of a \<^verbatim>\<open>datetime\<close> whose year has four digits.\<close>

definition four_digit_datetime :: "datetime \<Rightarrow> bool" where
  "four_digit_datetime t =
     (1000 \<le> year t \<and> year t \<le> 9999 \<and> 1 \<le> month t \<and> month t \<le> 12 \<and>
      1 \<le> day t \<and> day t \<le> 31 \<and> hour t < 24 \<and> minute t < 60 \<and> second t < 60)"

section \<open>The database connection\<close>

text \<open>
  \<^verbatim>\<open>self.connection\<close> of \<^verbatim>\<open>DatabaseConnection\<close> is \<^verbatim>\<open>None\<close>, an open psycopg2 connection
  or a closed one: \<^verbatim>\<open>disconnect\<close> closes the connection object and leaves it in the
  attribute, and a psycopg2 connection object is always truthy. On a closed connection
  \<^verbatim>\<open>cursor()\<close> and \<^verbatim>\<open>rollback()\<close> raise \<^verbatim>\<open>InterfaceError\<close> (connection already closed).
\<close>

datatype conn_state = NoConnection | OpenConn | ClosedConn

datatype py_exception = InterfaceError | DatabaseError | KeyError | TypeError | APIError

text \<open>
  The database server, as one method call sees it: whether \<^verbatim>\<open>psycopg2.connect\<close> succeeds,
  what \<^verbatim>\<open>cursor.execute(query, params)\<close> does (a result set with its column names, a
  statement without a result set, or an error), and whether \<^verbatim>\<open>commit\<close> and \<^verbatim>\<open>rollback\<close>
  succeed on the open connection. The rows of a result set are given as pandas stores
  them, one value per column.
\<close>

datatype exec_outcome = ResultSet "string list" "cell list list" | CommandOk | ExecError

record pg_server =
  accepts :: bool
  execute :: "string \<Rightarrow> string list \<Rightarrow> exec_outcome"
  commit_ok :: bool
  rollback_ok :: bool

definition db_connect :: "conn_state \<Rightarrow> pg_server \<Rightarrow> conn_state \<times> bool" where
  "db_connect conn srv = (if accepts srv then (OpenConn, True) else (conn, False))"

definition disconnect :: "conn_state \<Rightarrow> conn_state" where
  "disconnect conn = (if conn = NoConnection then NoConnection else ClosedConn)"

subsection \<open>Query text\<close>

definition is_space :: "char \<Rightarrow> bool" where
  "is_space c = (c \<in> set [CHR 0x09, CHR 0x0A, CHR 0x0B, CHR 0x0C, CHR 0x0D,
                           CHR 0x1C, CHR 0x1D, CHR 0x1E, CHR 0x1F, CHR 0x20])"

definition strip :: "string \<Rightarrow> string" where
  "strip s = rev (dropWhile is_space (rev (dropWhile is_space s)))"

text \<open>\<^verbatim>\<open>str.upper\<close> on the ASCII letters.\<close>

definition upper_char :: "char \<Rightarrow> char" where
  "upper_char c =
     (let n = (of_char c :: nat) in if 97 \<le> n \<and> n \<le> 122 then char_of (n - 32) else c)"

definition upper :: "string \<Rightarrow> string" where
  "upper s = map upper_char s"

definition startswith :: "string \<Rightarrow> string \<Rightarrow> bool" where
  "startswith s p = (take (length p) s = p)"

fun contains :: "string \<Rightarrow> string \<Rightarrow> bool" where
  "contains [] p = (p = [])"
| "contains (c # cs) p = (startswith (c # cs) p \<or> contains cs p)"

text \<open>\<^verbatim>\<open>query.strip().upper().startswith('SELECT') or 'RETURNING' in query.upper()\<close>\<close>

definition fetches_rows :: "string \<Rightarrow> bool" where
  "fetches_rows query =
     (startswith (upper (strip query)) ''SELECT'' \<or> contains (upper query) ''RETURNING'')"

definition table_exists_query :: string where
  "table_exists_query =
     [CHR 0x0A] @ ''            SELECT EXISTS ('' @
     [CHR 0x0A] @ ''                SELECT FROM information_schema.tables '' @
     [CHR 0x0A] @ ''                WHERE table_schema = '' @ [CHR 0x27] @ ''public'' @ [CHR 0x27] @ '' '' @
     [CHR 0x0A] @ ''                AND table_name = %s'' @
     [CHR 0x0A] @ ''            );'' @
     [CHR 0x0A] @ ''        ''"

text \<open>\<^verbatim>\<open>f'SELECT * FROM "{table_name}" ORDER BY 1;'\<close>\<close>

definition select_all_query :: "string \<Rightarrow> string" where
  "select_all_query name =
     ''SELECT * FROM '' @ [CHR 0x22] @ name @ [CHR 0x22] @ '' ORDER BY 1;''"

subsection \<open>query_database\<close>

text \<open>
  The value \<^verbatim>\<open>query_database\<close> returns: the rows as dictionaries (a
  \<^verbatim>\<open>RealDictCursor\<close> row pairs each column name with its value), \<^verbatim>\<open>True\<close>, or \<^verbatim>\<open>None\<close>.
  The function can also leave by an exception, so its result is a sum.
\<close>

type_synonym row_dict = "(string \<times> cell) list"

datatype query_result = QRows "row_dict list" | QTrue | QNone

text \<open>\<^verbatim>\<open>d[k]\<close> on a dictionary built from pairs: the last pair with the key counts.\<close>

definition dict_get :: "row_dict \<Rightarrow> string \<Rightarrow> cell option" where
  "dict_get d k = map_of (rev d) k"

text \<open>The \<^verbatim>\<open>except Exception\<close> handler: it prints, calls \<^verbatim>\<open>self.connection.rollback()\<close>
  and returns \<^verbatim>\<open>None\<close>. An exception of \<^verbatim>\<open>rollback\<close> itself leaves the function.\<close>

definition rollback_handler :: "conn_state \<Rightarrow> pg_server \<Rightarrow> py_exception + query_result" where
  "rollback_handler conn srv =
     (if conn = ClosedConn then Inl InterfaceError
      else if rollback_ok srv then Inr QNone
      else Inl DatabaseError)"

text \<open>The \<^verbatim>\<open>try\<close> block with its handler, on the connection \<open>conn\<close> (not \<^verbatim>\<open>None\<close>).\<close>

definition run_query :: "conn_state \<Rightarrow> pg_server \<Rightarrow> string \<Rightarrow> string list \<Rightarrow> py_exception + query_result" where
  "run_query conn srv query params =
     (if conn = ClosedConn then rollback_handler conn srv
      else (case execute srv query params of
              ExecError \<Rightarrow> rollback_handler conn srv
            | CommandOk \<Rightarrow>
                if fetches_rows query then rollback_handler conn srv
                else if commit_ok srv then Inr QTrue
                else rollback_handler conn srv
            | ResultSet cols data \<Rightarrow>
                if \<not> commit_ok srv then rollback_handler conn srv
                else if fetches_rows query then Inr (QRows (map (\<lambda>r. zip cols r) data))
                else Inr QTrue))"

definition query_database ::
  "conn_state \<Rightarrow> pg_server \<Rightarrow> string \<Rightarrow> string list \<Rightarrow> conn_state \<times> (py_exception + query_result)" where
  "query_database conn srv query params =
     (if conn = NoConnection then
        (case db_connect conn srv of
           (c, False) \<Rightarrow> (c, Inr QNone)
         | (c, True) \<Rightarrow> (disconnect c, run_query c srv query params))
      else (conn, run_query conn srv query params))"

subsection \<open>table_exists\<close>

text \<open>\<^verbatim>\<open>return result and result[0]['exists'] if result else False\<close>: the conditional
  expression binds weaker than \<^verbatim>\<open>and\<close>. \<^verbatim>\<open>None\<close> and the empty list are falsy.\<close>

definition table_exists :: "conn_state \<Rightarrow> pg_server \<Rightarrow> string \<Rightarrow> conn_state \<times> (py_exception + cell)" where
  "table_exists conn srv name =
     (case query_database conn srv table_exists_query [name] of
        (c, Inl e) \<Rightarrow> (c, Inl e)
      | (c, Inr QNone) \<Rightarrow> (c, Inr (PyBool False))
      | (c, Inr (QRows [])) \<Rightarrow> (c, Inr (PyBool False))
      | (c, Inr (QRows (r # _))) \<Rightarrow>
          (case dict_get r ''exists'' of
             None \<Rightarrow> (c, Inl KeyError)
           | Some v \<Rightarrow> (c, Inr v))
      | (c, Inr QTrue) \<Rightarrow> (c, Inl TypeError))"

text \<open>Truth value of a returned cell, for \<^verbatim>\<open>if not self.db.table_exists(...)\<close>. The
  existence query yields a boolean; the other cases follow Python where the model
  determines them (an object kept by its text counts as truthy).\<close>

fun truthy :: "cell \<Rightarrow> bool" where
  "truthy PyNone = False"
| "truthy (PyBool b) = b"
| "truthy (PyInt i) = (i \<noteq> 0)"
| "truthy (PyStr s) = (s \<noteq> [])"
| "truthy _ = True"

subsection \<open>get_table_data\<close>

text \<open>The \<^verbatim>\<open>try\<close> block of \<^verbatim>\<open>get_table_data\<close> on an open connection; every exception
  ends in \<^verbatim>\<open>return None\<close>. Without a result set \<^verbatim>\<open>cursor.description\<close> is \<^verbatim>\<open>None\<close> and the
  comprehension over it raises.\<close>

definition fetch_table :: "pg_server \<Rightarrow> string \<Rightarrow> dataframe option" where
  "fetch_table srv name =
     (case execute srv (select_all_query name) [] of
        ExecError \<Rightarrow> None
      | CommandOk \<Rightarrow> None
      | ResultSet cols data \<Rightarrow>
          if data = [] then Some empty_dataframe
          else Some \<lparr>columns = cols, rows = data\<rparr>)"

definition get_table_data :: "conn_state \<Rightarrow> pg_server \<Rightarrow> string \<Rightarrow> conn_state \<times> dataframe option" where
  "get_table_data conn srv name =
     (if conn = NoConnection \<or> conn = ClosedConn then
        (case db_connect conn srv of
           (c, False) \<Rightarrow> (c, None)
         | (c, True) \<Rightarrow> (c, fetch_table srv name))
      else (conn, fetch_table srv name))"

section \<open>The spreadsheet connection\<close>

text \<open>
  The spreadsheet document lives at the provider: a worksheet has a grid size and cell
  contents, and the document maps worksheet titles to worksheets (\<open>None\<close> while no
  spreadsheet of the configured name exists). \<^verbatim>\<open>self.spreadsheet\<close> is set once
  \<^verbatim>\<open>connect\<close> has succeeded. Every call of the client library can fail; \<open>api call\<close>
  tells whether the call succeeds while the method at hand runs.
\<close>

record worksheet =
  nrows :: nat
  ncols :: nat
  cells :: "string list list"

record sheets_conn =
  connected :: bool
  document :: "(string \<rightharpoonup> worksheet) option"

datatype api_call =
    Authorize
  | OpenSpreadsheet
  | CreateSpreadsheet
  | GetWorksheet string
  | AddWorksheet string
  | ClearWorksheet string
  | UpdateWorksheet string

type_synonym gspread = "api_call \<Rightarrow> bool"

text \<open>The worksheet of a title, as it is at the provider.\<close>

definition worksheet_of :: "sheets_conn \<Rightarrow> string \<Rightarrow> worksheet option" where
  "worksheet_of sh title = (case document sh of None \<Rightarrow> None | Some d \<Rightarrow> d title)"

definition set_cells :: "sheets_conn \<Rightarrow> string \<Rightarrow> string list list \<Rightarrow> sheets_conn" where
  "set_cells sh title data =
     (case document sh of
        None \<Rightarrow> sh
      | Some d \<Rightarrow>
          (case d title of
             None \<Rightarrow> sh
           | Some w \<Rightarrow> sh\<lparr>document := Some (d(title \<mapsto> w\<lparr>cells := data\<rparr>))\<rparr>))"

text \<open>\<^verbatim>\<open>connect\<close>: a spreadsheet created by \<^verbatim>\<open>gc.create\<close> starts with the provider's
  default worksheet. All exceptions end in \<^verbatim>\<open>return False\<close>.\<close>

definition sheets_connect :: "gspread \<Rightarrow> sheets_conn \<Rightarrow> sheets_conn \<times> bool" where
  "sheets_connect api sh =
     (if \<not> api Authorize then (sh, False)
      else if \<not> api OpenSpreadsheet then (sh, False)
      else (case document sh of
              Some d \<Rightarrow> (sh\<lparr>connected := True\<rparr>, True)
            | None \<Rightarrow>
                if \<not> api CreateSpreadsheet then (sh, False)
                else (\<lparr>connected = True,
                       document = Some [''Sheet1'' \<mapsto> \<lparr>nrows = 1000, ncols = 26, cells = []\<rparr>]\<rparr>,
                      True)))"

text \<open>
  \<^verbatim>\<open>get_or_create_worksheet\<close>. Without a spreadsheet the attribute access raises and the
  \<^verbatim>\<open>except Exception\<close> clause returns \<^verbatim>\<open>None\<close>, as it does when the lookup fails. An
  exception of \<^verbatim>\<open>add_worksheet\<close> is raised inside the \<^verbatim>\<open>except WorksheetNotFound\<close>
  clause, which the sibling clause does not cover: it leaves the function. A worksheet
  is referred to by its title.
\<close>

definition get_or_create_worksheet ::
  "gspread \<Rightarrow> sheets_conn \<Rightarrow> string \<Rightarrow> nat \<Rightarrow> nat \<Rightarrow> sheets_conn \<times> (py_exception + string option)" where
  "get_or_create_worksheet api sh worksheet_name r c =
     (if \<not> connected sh then (sh, Inr None)
      else (case document sh of
              None \<Rightarrow> (sh, Inr None)
            | Some d \<Rightarrow>
                if \<not> api (GetWorksheet worksheet_name) then (sh, Inr None)
                else if d worksheet_name \<noteq> None then (sh, Inr (Some worksheet_name))
                else if \<not> api (AddWorksheet worksheet_name) then (sh, Inl APIError)
                else (sh\<lparr>document :=
                           Some (d(worksheet_name \<mapsto> \<lparr>nrows = r, ncols = c, cells = []\<rparr>))\<rparr>,
                      Inr (Some worksheet_name))))"

text \<open>\<^verbatim>\<open>update_worksheet_data\<close>: \<^verbatim>\<open>clear\<close>, then \<^verbatim>\<open>update\<close> from cell A1. A failure of
  \<^verbatim>\<open>update\<close> leaves the worksheet cleared.\<close>

definition update_worksheet_data ::
  "gspread \<Rightarrow> sheets_conn \<Rightarrow> string \<Rightarrow> string list list \<Rightarrow> sheets_conn \<times> bool" where
  "update_worksheet_data api sh ws data =
     (if \<not> api (ClearWorksheet ws) then (sh, False)
      else if \<not> api (UpdateWorksheet ws) then (set_cells sh ws [], False)
      else (set_cells (set_cells sh ws []) ws data, True))"

definition setup_worksheets :: "gspread \<Rightarrow> sheets_conn \<Rightarrow> string \<Rightarrow> sheets_conn \<times> bool" where
  "setup_worksheets api sh name =
     (case get_or_create_worksheet api sh (name @ ''_data'') 1000 50 of
        (sh1, Inl e) \<Rightarrow> (sh1, False)
      | (sh1, Inr None) \<Rightarrow> (sh1, False)
      | (sh1, Inr (Some data_worksheet)) \<Rightarrow>
          (case get_or_create_worksheet api sh1 ''Sync_Metadata'' 10 3 of
             (sh2, Inl e) \<Rightarrow> (sh2, False)
           | (sh2, Inr None) \<Rightarrow> (sh2, False)
           | (sh2, Inr (Some metadata_worksheet)) \<Rightarrow> (sh2, True)))"

definition update_data_worksheet ::
  "gspread \<Rightarrow> sheets_conn \<Rightarrow> dataframe \<Rightarrow> string \<Rightarrow> sheets_conn \<times> bool" where
  "update_data_worksheet api sh df worksheet_name =
     (case get_or_create_worksheet api sh worksheet_name
             (max (len_df df + 10) 100) (max (length (columns df) + 5) 20) of
        (sh1, Inl e) \<Rightarrow> (sh1, False)
      | (sh1, Inr None) \<Rightarrow> (sh1, False)
      | (sh1, Inr (Some ws)) \<Rightarrow>
          update_worksheet_data api sh1 ws (prepare_dataframe_for_upload df))"

text \<open>A metadata dictionary keeps its keys in the order of insertion; the values are
  strings and integers.\<close>

type_synonym metadata = "(string \<times> cell) list"

definition sync_info :: "metadata \<Rightarrow> string list list" where
  "sync_info md = [''Attribute'', ''Value''] # map (\<lambda>(k, v). [k, py_str v]) md"

definition update_metadata_worksheet :: "gspread \<Rightarrow> sheets_conn \<Rightarrow> metadata \<Rightarrow> sheets_conn \<times> bool" where
  "update_metadata_worksheet api sh md =
     (case get_or_create_worksheet api sh ''Sync_Metadata'' 10 3 of
        (sh1, Inl e) \<Rightarrow> (sh1, False)
      | (sh1, Inr None) \<Rightarrow> (sh1, False)
      | (sh1, Inr (Some metadata_sheet)) \<Rightarrow>
          update_worksheet_data api sh1 metadata_sheet (sync_info md))"

section \<open>One sync cycle\<close>

text \<open>
  Both sync classes own a database connection, a spreadsheet connection, the table name
  and the last snapshot; the continuous one adds the interval in seconds. What lies
  outside the process while one cycle runs is a \<open>world\<close>: the database server, the
  spreadsheet API and the clock read by \<^verbatim>\<open>datetime.now()\<close>.
\<close>

record sync =
  db :: conn_state
  sheets :: sheets_conn
  table_name :: string
  df :: "dataframe option"

record neon_to_sheets_sync = sync +
  sync_interval :: int

record world =
  server :: pg_server
  api :: gspread
  now :: datetime

text \<open>\<^verbatim>\<open>f"{self.sync_interval/60:.1f} minutes"\<close>: the constructor sets the interval to a
  whole number of minutes times 60, for which the quotient is that number and the text
  ends in \<^verbatim>\<open>.0\<close>. Other intervals would need the rounding of binary floats, which is
  not modelled.\<close>

definition format_minutes :: "int \<Rightarrow> string" where
  "format_minutes secs = str_int (secs div 60) @ ''.0 minutes''"

definition one_time_metadata :: "datetime \<Rightarrow> string \<Rightarrow> dataframe \<Rightarrow> metadata" where
  "one_time_metadata t name d =
     [(''Last Sync Time'', PyStr (strftime t)),
      (''Source Table'', PyStr name),
      (''Total Rows'', PyInt (int (len_df d))),
      (''Total Columns'', PyInt (int (length (columns d)))),
      (''Data Worksheet'', PyStr (name @ ''_data'')),
      (''Sync Type'', PyStr ''One-time'')]"

definition continuous_metadata :: "datetime \<Rightarrow> string \<Rightarrow> dataframe \<Rightarrow> int \<Rightarrow> metadata" where
  "continuous_metadata t name d secs =
     [(''Last Sync Time'', PyStr (strftime t)),
      (''Source Table'', PyStr name),
      (''Total Rows'', PyInt (int (len_df d))),
      (''Total Columns'', PyInt (int (length (columns d)))),
      (''Data Worksheet'', PyStr (name @ ''_data'')),
      (''Sync Interval'', PyStr (format_minutes secs)),
      (''Status'', PyStr ''Running'')]"

text \<open>\<^verbatim>\<open>OneTimeSyncToSheets.download_and_upload_data\<close>\<close>

definition download_and_upload_data :: "world \<Rightarrow> sync \<Rightarrow> sync \<times> bool" where
  "download_and_upload_data w s =
     (case get_table_data (db s) (server w) (table_name s) of
        (c, r) \<Rightarrow>
          (let s1 = s\<lparr>db := c, df := r\<rparr> in
           case r of
             None \<Rightarrow> (s1, False)
           | Some d \<Rightarrow>
               if len_df d = 0 then (s1, False)
               else (case update_data_worksheet (api w) (sheets s1) d (table_name s @ ''_data'') of
                       (sh1, False) \<Rightarrow> (s1\<lparr>sheets := sh1\<rparr>, False)
                     | (sh1, True) \<Rightarrow>
                         (case update_metadata_worksheet (api w) sh1
                                 (one_time_metadata (now w) (table_name s) d) of
                            (sh2, ok) \<Rightarrow> (s1\<lparr>sheets := sh2\<rparr>, ok)))))"

text \<open>\<^verbatim>\<open>NeonToSheetsSync.perform_sync_cycle\<close>. The calls inside its \<^verbatim>\<open>try\<close> return
  without raising, so the handler of the block is never entered.\<close>

definition perform_sync_cycle :: "world \<Rightarrow> neon_to_sheets_sync \<Rightarrow> neon_to_sheets_sync \<times> bool" where
  "perform_sync_cycle w s =
     (case get_table_data (db s) (server w) (table_name s) of
        (c, r) \<Rightarrow>
          (let s1 = s\<lparr>db := c, df := r\<rparr> in
           case r of
             None \<Rightarrow> (s1, False)
           | Some d \<Rightarrow>
               if len_df d = 0 then (s1, False)
               else (case update_data_worksheet (api w) (sheets s1) d (table_name s @ ''_data'') of
                       (sh1, False) \<Rightarrow> (s1\<lparr>sheets := sh1\<rparr>, False)
                     | (sh1, True) \<Rightarrow>
                         (case update_metadata_worksheet (api w) sh1
                                 (continuous_metadata (now w) (table_name s) d (sync_interval s)) of
                            (sh2, ok) \<Rightarrow> (s1\<lparr>sheets := sh2\<rparr>, ok)))))"

section \<open>The scheduler\<close>

text \<open>
  \<^verbatim>\<open>connect_to_services\<close>, the same in both classes up to its messages. \<^verbatim>\<open>table_exists\<close>
  is called outside any \<^verbatim>\<open>try\<close>, so an exception of it leaves the method.
\<close>

definition connect_to_services ::
  "world \<Rightarrow> 'a sync_scheme \<Rightarrow> 'a sync_scheme \<times> (py_exception + bool)" where
  "connect_to_services w s =
     (case db_connect (db s) (server w) of
        (c, False) \<Rightarrow> (s\<lparr>db := c\<rparr>, Inr False)
      | (c, True) \<Rightarrow>
          (case table_exists c (server w) (table_name s) of
             (c1, Inl e) \<Rightarrow> (s\<lparr>db := c1\<rparr>, Inl e)
           | (c1, Inr found) \<Rightarrow>
               if \<not> truthy found then (s\<lparr>db := c1\<rparr>, Inr False)
               else (case sheets_connect (api w) (sheets s) of
                       (sh, False) \<Rightarrow> (s\<lparr>db := c1, sheets := sh\<rparr>, Inr False)
                     | (sh, True) \<Rightarrow>
                         (case setup_worksheets (api w) sh (table_name s) of
                            (sh1, ok) \<Rightarrow> (s\<lparr>db := c1, sheets := sh1\<rparr>, Inr ok)))))"

text \<open>\<^verbatim>\<open>OneTimeSyncToSheets.sync_data\<close>; \<open>env_ok\<close> is the result of
  \<^verbatim>\<open>validate_environment\<close>, and the two worlds are those of the connection phase and of
  the cycle.\<close>

definition sync_data :: "bool \<Rightarrow> world \<Rightarrow> world \<Rightarrow> sync \<Rightarrow> sync \<times> (py_exception + bool)" where
  "sync_data env_ok w0 w1 s =
     (if \<not> env_ok then (s, Inr False)
      else (case connect_to_services w0 s of
              (s1, Inl e) \<Rightarrow> (s1, Inl e)
            | (s1, Inr False) \<Rightarrow> (s1, Inr False)
            | (s1, Inr True) \<Rightarrow>
                (case download_and_upload_data w1 s1 of (s2, ok) \<Rightarrow> (s2, Inr ok))))"

text \<open>
  \<^verbatim>\<open>self.is_running\<close> starts as \<^verbatim>\<open>True\<close> and only the signal handler writes it, setting
  it to \<^verbatim>\<open>False\<close>; the handler runs between two steps of the program, at a moment the
  program does not choose. A signal is therefore given by the number of reads of the
  flag that still see \<^verbatim>\<open>True\<close>: \<open>None\<close> when no signal ever arrives, \<open>Some n\<close> when the
  handler runs after the \<open>n\<close>-th read from now.
\<close>

type_synonym signal = "nat option"

fun read_is_running :: "signal \<Rightarrow> bool \<times> signal" where
  "read_is_running None = (True, None)"
| "read_is_running (Some 0) = (False, Some 0)"
| "read_is_running (Some (Suc n)) = (True, Some n)"

text \<open>What the scheduler does, in program order: a read of the flag with the value
  seen, a \<^verbatim>\<open>time.sleep(1)\<close>, or a sync cycle with its number and result.\<close>

datatype action = ReadFlag bool | Sleep | Cycle nat bool

text \<open>\<^verbatim>\<open>for i in range(self.sync_interval): if not self.is_running: break; time.sleep(1)\<close>\<close>

fun wait_interval :: "nat \<Rightarrow> signal \<Rightarrow> signal \<times> action list" where
  "wait_interval 0 sg = (sg, [])"
| "wait_interval (Suc n) sg =
     (case read_is_running sg of
        (False, sg1) \<Rightarrow> (sg1, [ReadFlag False])
      | (True, sg1) \<Rightarrow>
          (case wait_interval n sg1 of (sg2, acts) \<Rightarrow> (sg2, ReadFlag True # Sleep # acts)))"

text \<open>
  The \<^verbatim>\<open>while self.is_running\<close> loop. It need not end, so it runs on fuel: one unit per
  iteration, \<open>None\<close> when the fuel is used up. \<open>worlds k\<close> is the world during cycle
  number \<open>k\<close>. The loop body calls nothing that raises, so its \<^verbatim>\<open>except\<close> clause with
  \<^verbatim>\<open>time.sleep(5)\<close> is never entered. The result is the final state, the value of
  \<^verbatim>\<open>sync_count\<close> and the actions taken.
\<close>

fun sync_loop ::
  "nat \<Rightarrow> (nat \<Rightarrow> world) \<Rightarrow> signal \<Rightarrow> neon_to_sheets_sync \<Rightarrow> nat \<Rightarrow>
     (neon_to_sheets_sync \<times> nat \<times> action list) option" where
  "sync_loop 0 worlds sg s sync_count = None"
| "sync_loop (Suc fuel) worlds sg s sync_count =
     (case read_is_running sg of
        (False, sg1) \<Rightarrow> Some (s, sync_count, [ReadFlag False])
      | (True, sg1) \<Rightarrow>
          (case wait_interval (nat (sync_interval s)) sg1 of
             (sg2, waited) \<Rightarrow>
               (case read_is_running sg2 of
                  (False, sg3) \<Rightarrow> Some (s, sync_count, ReadFlag True # waited @ [ReadFlag False])
                | (True, sg3) \<Rightarrow>
                    (case perform_sync_cycle (worlds (Suc sync_count)) s of
                       (s1, ok) \<Rightarrow>
                         (case sync_loop fuel worlds sg3 s1 (Suc sync_count) of
                            None \<Rightarrow> None
                          | Some (s2, n, acts) \<Rightarrow>
                              Some (s2, n,
                                    ReadFlag True # waited @
                                    [ReadFlag True, Cycle (Suc sync_count) ok] @ acts))))))"

text \<open>The cleanup after the loop: the connection is closed, the final metadata are
  written inside a \<^verbatim>\<open>try\<close> whose bare \<^verbatim>\<open>except\<close> passes, and the result of the write is
  dropped.\<close>

definition final_metadata :: "datetime \<Rightarrow> string \<Rightarrow> nat \<Rightarrow> metadata" where
  "final_metadata t name sync_count =
     [(''Last Sync Time'', PyStr (strftime t)),
      (''Source Table'', PyStr name),
      (''Total Syncs Completed'', PyInt (int sync_count)),
      (''Status'', PyStr ''Stopped'')]"

definition cleanup :: "world \<Rightarrow> neon_to_sheets_sync \<Rightarrow> nat \<Rightarrow> neon_to_sheets_sync" where
  "cleanup w s sync_count =
     s\<lparr>db := disconnect (db s),
       sheets := fst (update_metadata_worksheet (api w) (sheets s)
                        (final_metadata (now w) (table_name s) sync_count))\<rparr>"

text \<open>
  \<^verbatim>\<open>start_continuous_sync\<close>. World 0 is that of the connection phase, world 1 that of
  the initial cycle, and the cleanup runs in the world after the last cycle. The result
  is \<open>None\<close> when the fuel of the loop runs out, and otherwise the final state, the
  returned value or the exception, and the actions taken.
\<close>

definition start_continuous_sync ::
  "nat \<Rightarrow> bool \<Rightarrow> (nat \<Rightarrow> world) \<Rightarrow> signal \<Rightarrow> neon_to_sheets_sync \<Rightarrow>
     (neon_to_sheets_sync \<times> (py_exception + bool) \<times> action list) option" where
  "start_continuous_sync fuel env_ok worlds sg s =
     (if \<not> env_ok then Some (s, Inr False, [])
      else (case connect_to_services (worlds 0) s of
              (s1, Inl e) \<Rightarrow> Some (s1, Inl e, [])
            | (s1, Inr False) \<Rightarrow> Some (s1, Inr False, [])
            | (s1, Inr True) \<Rightarrow>
                (case perform_sync_cycle (worlds 1) s1 of
                   (s2, False) \<Rightarrow> Some (s2, Inr False, [Cycle 1 False])
                 | (s2, True) \<Rightarrow>
                     (case sync_loop fuel worlds sg s2 1 of
                        None \<Rightarrow> None
                      | Some (s3, n, acts) \<Rightarrow>
                          Some (cleanup (worlds (Suc n)) s3 n, Inr True, Cycle 1 True # acts)))))"

section \<open>Actions of the scheduler\<close>

text \<open>
  Two properties of a list of actions. \<open>checked False acts\<close>: every sleep and every cycle
  comes directly after a read of the flag that saw \<^verbatim>\<open>True\<close>, so that between two reads
  of the flag at most one sleep of one second or one cycle takes place.
  \<open>idle_after_stop acts\<close>: once a read has seen \<^verbatim>\<open>False\<close>, only further reads follow, no
  sleep and no cycle. \<open>seconds k\<close> is the wait of \<open>k\<close> seconds: \<open>k\<close> times a read that sees
  \<^verbatim>\<open>True\<close> and a sleep. \<open>erase_result\<close> forgets whether a cycle succeeded.
\<close>

fun checked :: "bool \<Rightarrow> action list \<Rightarrow> bool" where
  "checked seen [] = True"
| "checked seen (ReadFlag b # acts) = checked b acts"
| "checked seen (Sleep # acts) = (seen \<and> checked False acts)"
| "checked seen (Cycle n ok # acts) = (seen \<and> checked False acts)"

fun idle_after_stop :: "action list \<Rightarrow> bool" where
  "idle_after_stop [] = True"
| "idle_after_stop (ReadFlag False # acts) = list_all (\<lambda>a. a = ReadFlag False) acts"
| "idle_after_stop (a # acts) = idle_after_stop acts"

fun erase_result :: "action \<Rightarrow> action" where
  "erase_result (Cycle n ok) = Cycle n True"
| "erase_result a = a"

definition seconds :: "nat \<Rightarrow> action list" where
  "seconds k = concat (replicate k [ReadFlag True, Sleep])"

section \<open>Concrete inputs\<close>

text \<open>The table \<^verbatim>\<open>users\<close> with the columns \<^verbatim>\<open>id, name, created_at\<close> and two rows, the
  second without a creation time; a server that holds it; a server that holds the same
  table without rows; an API on which every call succeeds.\<close>

definition new_year :: datetime where
  "new_year = \<lparr>year = 2024, month = 1, day = 1, hour = 0, minute = 0, second = 0, microsecond = 0\<rparr>"

definition users_snapshot :: dataframe where
  "users_snapshot =
     \<lparr>columns = [''id'', ''name'', ''created_at''],
      rows = [[PyInt 1, PyStr ''Ann'', Timestamp new_year], [PyInt 2, PyStr ''Bo'', NaT]]\<rparr>"

definition table_server :: "string \<Rightarrow> dataframe \<Rightarrow> pg_server" where
  "table_server name d =
     \<lparr>accepts = True,
      execute = (\<lambda>q ps.
        if q = select_all_query name then ResultSet (columns d) (rows d)
        else if q = table_exists_query then ResultSet [''exists''] [[PyBool (ps = [name])]]
        else ExecError),
      commit_ok = True,
      rollback_ok = True\<rparr>"

definition users_server :: pg_server where
  "users_server = table_server ''users'' users_snapshot"

definition empty_users_server :: pg_server where
  "empty_users_server = table_server ''users'' (users_snapshot\<lparr>rows := []\<rparr>)"

definition unreachable_server :: pg_server where
  "unreachable_server =
     \<lparr>accepts = False, execute = (\<lambda>q ps. ExecError), commit_ok = False, rollback_ok = False\<rparr>"

definition good_api :: gspread where
  "good_api = (\<lambda>call. True)"

definition users_world :: world where
  "users_world = \<lparr>server = users_server, api = good_api, now = new_year\<rparr>"

definition fresh_sheets :: sheets_conn where
  "fresh_sheets = \<lparr>connected = False, document = None\<rparr>"

definition fresh_continuous :: neon_to_sheets_sync where
  "fresh_continuous =
     \<lparr>db = NoConnection, sheets = fresh_sheets, table_name = ''users'', df = None,
      sync_interval = 60\<rparr>"

text \<open>The two sync objects after a successful cycle over \<^verbatim>\<open>users\<close>, a world whose
  database cannot be reached or queried, and a world whose table \<^verbatim>\<open>users\<close> has no rows.\<close>

definition synced_sheets :: sheets_conn where
  "synced_sheets =
     \<lparr>connected = True,
      document = Some [''users_data'' \<mapsto>
                         \<lparr>nrows = 1000, ncols = 50,
                          cells = prepare_dataframe_for_upload users_snapshot\<rparr>,
                       ''Sync_Metadata'' \<mapsto>
                         \<lparr>nrows = 10, ncols = 3,
                          cells = sync_info (continuous_metadata new_year ''users'' users_snapshot 60)\<rparr>]\<rparr>"

definition synced_continuous :: neon_to_sheets_sync where
  "synced_continuous =
     \<lparr>db = OpenConn, sheets = synced_sheets, table_name = ''users'',
      df = Some users_snapshot, sync_interval = 60\<rparr>"

definition synced_one_time :: sync where
  "synced_one_time =
     \<lparr>db = OpenConn, sheets = synced_sheets, table_name = ''users'', df = Some users_snapshot\<rparr>"

definition failing_world :: world where
  "failing_world = \<lparr>server = unreachable_server, api = good_api, now = new_year\<rparr>"

definition empty_world :: world where
  "empty_world = \<lparr>server = empty_users_server, api = good_api, now = new_year\<rparr>"


text \<open>The worlds in which the connection phase works and every cycle fails.\<close>

fun cycles_fail :: "nat \<Rightarrow> world" where
  "cycles_fail 0 = users_world"
| "cycles_fail (Suc n) = failing_world"

section \<open>Properties of the normalizer\<close>


lemma str_nat_1: "n < 10 \<Longrightarrow> str_nat n = [digit_char n]"
  by (simp add: str_nat.simps)

lemma str_nat_2:
  "10 \<le> n \<Longrightarrow> n < 100 \<Longrightarrow> str_nat n = [digit_char (n div 10), digit_char (n mod 10)]"
  by (subst str_nat.simps) (simp add: str_nat_1)

lemma str_nat_3:
  "100 \<le> n \<Longrightarrow> n < 1000 \<Longrightarrow>
   str_nat n = [digit_char (n div 100), digit_char (n div 10 mod 10), digit_char (n mod 10)]"
  by (subst str_nat.simps) (simp add: str_nat_2 div_mult2_eq[symmetric])

lemma str_nat_4:
  "1000 \<le> n \<Longrightarrow> n < 10000 \<Longrightarrow>
   str_nat n = [digit_char (n div 1000), digit_char (n div 100 mod 10),
                digit_char (n div 10 mod 10), digit_char (n mod 10)]"
  by (subst str_nat.simps) (simp add: str_nat_3 div_mult2_eq[symmetric])

lemma str_int_small: "0 \<le> i \<Longrightarrow> i < 10 \<Longrightarrow> str_int i = [digit_char (nat i)]"
  by (simp add: str_int_def str_nat_1)

lemma zfill_2:
  "n < 100 \<Longrightarrow> zfill 2 (str_nat n) = [digit_char (n div 10), digit_char (n mod 10)]"
  by (cases "n < 10") (simp_all add: zfill_def str_nat_1 str_nat_2 digit_char_def)

lemma zfill_4:
  "1000 \<le> n \<Longrightarrow> n < 10000 \<Longrightarrow>
   zfill 4 (str_nat n) = [digit_char (n div 1000), digit_char (n div 100 mod 10),
                          digit_char (n div 10 mod 10), digit_char (n mod 10)]"
  by (simp add: zfill_def str_nat_4)

text \<open>The text of a timestamp, digit by digit.\<close>

lemma strftime_digits:
  assumes "four_digit_datetime t"
  shows "strftime t =
    [digit_char (year t div 1000), digit_char (year t div 100 mod 10),
     digit_char (year t div 10 mod 10), digit_char (year t mod 10), CHR ''-'',
     digit_char (month t div 10), digit_char (month t mod 10), CHR ''-'',
     digit_char (day t div 10), digit_char (day t mod 10), CHR '' '',
     digit_char (hour t div 10), digit_char (hour t mod 10), CHR '':'',
     digit_char (minute t div 10), digit_char (minute t mod 10), CHR '':'',
     digit_char (second t div 10), digit_char (second t mod 10)]"
  using assms unfolding four_digit_datetime_def strftime_def
  by (simp add: zfill_2 zfill_4)


lemma strftime_new_year: "strftime new_year = ''2024-01-01 00:00:00''"
proof -
  have "four_digit_datetime new_year"
    by (simp add: four_digit_datetime_def new_year_def)
  from strftime_digits [OF this] show ?thesis
    by (simp add: new_year_def digit_char_def)
qed

lemma clean_PyStr: "clean_cell (PyStr s) = s"
  by (simp add: clean_cell_def)

text \<open>The scenario of the specification: the data worksheet for the table \<^verbatim>\<open>users\<close>.\<close>

lemma prepare_users:
  "prepare_dataframe_for_upload users_snapshot =
     [[''id'', ''name'', ''created_at''],
      [''1'', ''Ann'', ''2024-01-01 00:00:00''],
      [''2'', ''Bo'', '''']]"
  by (simp add: prepare_dataframe_for_upload_def data_to_upload_def users_snapshot_def
      clean_cell_def strftime_new_year str_int_small digit_char_def)

text \<open>
  Claim C1. For a snapshot with \<open>c\<close> columns and \<open>r\<close> rows (a DataFrame, so every row has
  \<open>c\<close> values), \<^verbatim>\<open>prepare_dataframe_for_upload\<close> returns \<open>r + 1\<close> rows, each of length
  \<open>c\<close>, and the first of them is the list of the column names in their order.
\<close>

theorem prepare_shape:
  assumes "rectangular fr"
  shows "length (prepare_dataframe_for_upload fr) = len_df fr + 1 \<and>
         (\<forall>r \<in> set (prepare_dataframe_for_upload fr). length r = length (columns fr)) \<and>
         prepare_dataframe_for_upload fr ! 0 = columns fr"
proof -
  have "map clean_cell (map PyStr (columns fr)) = columns fr"
    by (induction "columns fr") (simp_all add: clean_PyStr map_idI)
  then show ?thesis
    using assms
    by (auto simp: prepare_dataframe_for_upload_def data_to_upload_def len_df_def
        rectangular_def list_all_iff)
qed

theorem prepare_shape_witness:
  "rectangular users_snapshot \<and>
   length (prepare_dataframe_for_upload users_snapshot) = 3 \<and>
   list_all (\<lambda>r. length r = 3) (prepare_dataframe_for_upload users_snapshot) \<and>
   prepare_dataframe_for_upload users_snapshot ! 0 = [''id'', ''name'', ''created_at'']"
proof -
  have r: "rectangular users_snapshot"
    by (simp add: rectangular_def users_snapshot_def)
  from prepare_shape [OF r] show ?thesis
    using r by (simp add: len_df_def users_snapshot_def list_all_iff)
qed



section \<open>Properties of the table reader and of a failed read\<close>

lemma fetch_table_server:
  "fetch_table (table_server name d) name =
     (if rows d = [] then Some empty_dataframe else Some \<lparr>columns = columns d, rows = rows d\<rparr>)"
  by (simp add: fetch_table_def table_server_def)

text \<open>
  Claim C3. When the read phase of a cycle yields \<^verbatim>\<open>None\<close> or a snapshot without rows, the
  cycle returns \<^verbatim>\<open>False\<close> and the spreadsheet connection with the whole document behind
  it (the data worksheet and the metadata worksheet included) is as it was before the
  cycle. This holds for \<^verbatim>\<open>perform_sync_cycle\<close> and for \<^verbatim>\<open>download_and_upload_data\<close>.
\<close>

theorem failed_read_writes_nothing:
  assumes "get_table_data (db s) (server w) (table_name s) = (c, r)"
      and "get_table_data (db t) (server w) (table_name t) = (c', r')"
  shows "(r = None \<or> (\<exists>d. r = Some d \<and> len_df d = 0) \<longrightarrow>
            snd (perform_sync_cycle w s) = False \<and>
            sheets (fst (perform_sync_cycle w s)) = sheets s) \<and>
         (r' = None \<or> (\<exists>d. r' = Some d \<and> len_df d = 0) \<longrightarrow>
            snd (download_and_upload_data w t) = False \<and>
            sheets (fst (download_and_upload_data w t)) = sheets t)"
  using assms
  by (auto simp: perform_sync_cycle_def download_and_upload_data_def Let_def)

theorem failed_read_writes_nothing_witness:
  "get_table_data (db synced_continuous) (server failing_world) (table_name synced_continuous)
     = (OpenConn, None) \<and>
   get_table_data (db synced_one_time) (server empty_world) (table_name synced_one_time)
     = (OpenConn, Some empty_dataframe) \<and> len_df empty_dataframe = 0 \<and>
   snd (perform_sync_cycle failing_world synced_continuous) = False \<and>
   sheets (fst (perform_sync_cycle failing_world synced_continuous)) = synced_sheets \<and>
   snd (download_and_upload_data empty_world synced_one_time) = False \<and>
   sheets (fst (download_and_upload_data empty_world synced_one_time)) = synced_sheets"
proof -
  have a: "get_table_data (db synced_continuous) (server failing_world) (table_name synced_continuous)
     = (OpenConn, None)"
    by (simp add: get_table_data_def synced_continuous_def failing_world_def fetch_table_def
        unreachable_server_def)
  have b: "get_table_data (db synced_one_time) (server empty_world) (table_name synced_one_time)
     = (OpenConn, Some empty_dataframe)"
    by (simp add: get_table_data_def synced_one_time_def empty_world_def empty_users_server_def
        fetch_table_server)
  have e: "len_df empty_dataframe = 0"
    by (simp add: len_df_def empty_dataframe_def)
  have c: "get_table_data (db synced_one_time) (server failing_world) (table_name synced_one_time)
     = (OpenConn, None)"
    by (simp add: get_table_data_def synced_one_time_def failing_world_def fetch_table_def
        unreachable_server_def)
  have d: "get_table_data (db synced_continuous) (server empty_world) (table_name synced_continuous)
     = (OpenConn, Some empty_dataframe)"
    by (simp add: get_table_data_def synced_continuous_def empty_world_def empty_users_server_def
        fetch_table_server)
  from failed_read_writes_nothing [OF a c] failed_read_writes_nothing [OF d b] e
  show ?thesis
    using a b by (simp add: synced_continuous_def synced_one_time_def)
qed

text \<open>
  Claim C4, as the code has it. When the connection is open or can be opened and the
  query for the table returns a result set without rows, \<^verbatim>\<open>get_table_data\<close> returns the
  DataFrame of \<^verbatim>\<open>pd.DataFrame()\<close>, which has no rows and no columns: the column names of
  the table are not kept. The result differs from the \<^verbatim>\<open>None\<close> that is returned when the
  connection cannot be opened or the query fails.
\<close>

theorem empty_table_snapshot:
  "((conn = OpenConn \<or> accepts srv) \<and>
    execute srv (select_all_query name) [] = ResultSet cols [] \<longrightarrow>
      snd (get_table_data conn srv name) = Some \<lparr>columns = [], rows = []\<rparr> \<and>
      snd (get_table_data conn srv name) \<noteq> None) \<and>
   ((conn \<noteq> OpenConn \<and> \<not> accepts srv) \<or>
    execute srv (select_all_query name) [] = ExecError \<longrightarrow>
      snd (get_table_data conn srv name) = None)"
  by (cases conn) (auto simp: get_table_data_def db_connect_def fetch_table_def empty_dataframe_def)

theorem empty_table_snapshot_witness:
  "accepts empty_users_server \<and>
   execute empty_users_server (select_all_query ''users'') [] =
     ResultSet [''id'', ''name'', ''created_at''] [] \<and>
   snd (get_table_data NoConnection empty_users_server ''users'') = Some \<lparr>columns = [], rows = []\<rparr> \<and>
   \<not> accepts unreachable_server \<and>
   snd (get_table_data NoConnection unreachable_server ''users'') = None"
proof -
  have a: "accepts empty_users_server" "\<not> accepts unreachable_server"
    by (simp_all add: empty_users_server_def table_server_def unreachable_server_def)
  have e: "execute empty_users_server (select_all_query ''users'') [] =
     ResultSet [''id'', ''name'', ''created_at''] []"
    by (simp add: empty_users_server_def table_server_def users_snapshot_def)
  from empty_table_snapshot
         [of NoConnection empty_users_server "''users''" "[''id'', ''name'', ''created_at'']"]
       empty_table_snapshot [of NoConnection unreachable_server "''users''"]
  show ?thesis using a e by simp
qed

text \<open>The claim as the specification words it fails: the table \<^verbatim>\<open>users\<close> exists with its
  three columns and no rows, and the snapshot returned for it has no columns.\<close>

theorem empty_table_drops_columns:
  "execute empty_users_server (select_all_query ''users'') [] =
     ResultSet [''id'', ''name'', ''created_at''] [] \<and>
   map_option columns (snd (get_table_data OpenConn empty_users_server ''users'')) = Some [] \<and>
   map_option columns (snd (get_table_data OpenConn empty_users_server ''users''))
     \<noteq> Some [''id'', ''name'', ''created_at'']"
proof -
  have e: "execute empty_users_server (select_all_query ''users'') [] =
     ResultSet [''id'', ''name'', ''created_at''] []"
    by (simp add: empty_users_server_def table_server_def users_snapshot_def)
  have g: "get_table_data OpenConn empty_users_server ''users'' = (OpenConn, Some empty_dataframe)"
    by (simp add: get_table_data_def empty_users_server_def fetch_table_server)
  show ?thesis
    using e by (simp add: g empty_dataframe_def)
qed

section \<open>Properties of the metadata record\<close>

lemma get_or_create_worksheet_Some:
  assumes "get_or_create_worksheet g sh name r c = (sh1, Inr (Some ws))"
  shows "ws = name \<and> worksheet_of sh1 name \<noteq> None"
  using assms
  by (auto simp: get_or_create_worksheet_def worksheet_of_def
      split: if_splits option.splits)

lemma worksheet_of_set_cells:
  "worksheet_of sh ws \<noteq> None \<Longrightarrow>
   map_option cells (worksheet_of (set_cells sh ws data) ws) = Some data"
  by (auto simp: worksheet_of_def set_cells_def split: option.splits)

lemma worksheet_of_set_cells_None:
  "worksheet_of (set_cells sh ws data) ws' = None \<longleftrightarrow> worksheet_of sh ws' = None"
  by (auto simp: worksheet_of_def set_cells_def split: option.splits)

lemma update_worksheet_data_True:
  assumes "update_worksheet_data g sh ws data = (sh', True)"
      and "worksheet_of sh ws \<noteq> None"
  shows "map_option cells (worksheet_of sh' ws) = Some data"
proof -
  from assms(1) have "sh' = set_cells (set_cells sh ws []) ws data"
    by (simp add: update_worksheet_data_def split: if_splits)
  moreover from assms(2) have "worksheet_of (set_cells sh ws []) ws \<noteq> None"
    by (simp add: worksheet_of_set_cells_None)
  ultimately show ?thesis
    by (simp add: worksheet_of_set_cells)
qed

lemma update_metadata_worksheet_True:
  assumes "update_metadata_worksheet g sh md = (sh', True)"
  shows "map_option cells (worksheet_of sh' ''Sync_Metadata'') = Some (sync_info md)"
proof -
  obtain sh1 where gc: "get_or_create_worksheet g sh ''Sync_Metadata'' 10 3 = (sh1, Inr (Some ''Sync_Metadata''))"
    and u: "update_worksheet_data g sh1 ''Sync_Metadata'' (sync_info md) = (sh', True)"
    using assms get_or_create_worksheet_Some
    by (fastforce simp: update_metadata_worksheet_def split: prod.splits sum.splits option.splits)
  from get_or_create_worksheet_Some [OF gc] have "worksheet_of sh1 ''Sync_Metadata'' \<noteq> None"
    by simp
  from update_worksheet_data_True [OF u this] show ?thesis .
qed





lemma users_read:
  "get_table_data OpenConn users_server ''users'' = (OpenConn, Some users_snapshot)"
  by (simp add: get_table_data_def users_server_def fetch_table_server users_snapshot_def)

lemma good_api_metadata:
  "connected sh \<Longrightarrow> document sh \<noteq> None \<Longrightarrow> snd (update_metadata_worksheet good_api sh md) = True"
  by (auto simp: update_metadata_worksheet_def get_or_create_worksheet_def good_api_def
      update_worksheet_data_def)

lemma good_api_data:
  "connected sh \<Longrightarrow> document sh \<noteq> None \<Longrightarrow>
   snd (update_data_worksheet good_api sh d name) = True \<and>
   connected (fst (update_data_worksheet good_api sh d name)) \<and>
   document (fst (update_data_worksheet good_api sh d name)) \<noteq> None"
  by (auto simp: update_data_worksheet_def get_or_create_worksheet_def good_api_def
      update_worksheet_data_def set_cells_def split: option.splits)


lemma continuous_good:
  assumes "get_table_data (db s) (server w) (table_name s) = (c, Some d)"
      and "len_df d \<noteq> 0" and "api w = good_api"
      and "connected (sheets s)" and "document (sheets s) \<noteq> None"
  shows "snd (perform_sync_cycle w s) = True"
proof -
  note u = good_api_data [OF assms(4,5), of d "table_name s @ ''_data''"]
  from u have "snd (update_metadata_worksheet good_api
       (fst (update_data_worksheet good_api (sheets s) d (table_name s @ ''_data''))) md) = True" for md
    by (intro good_api_metadata) simp_all
  with u show ?thesis
    using assms(1,2,3) by (simp add: perform_sync_cycle_def split_beta Let_def)
qed


lemma continuous_succeeds:
  "snd (perform_sync_cycle users_world synced_continuous) = True"
  by (rule continuous_good [where d = users_snapshot and c = OpenConn])
     (simp_all add: synced_continuous_def users_world_def users_read synced_sheets_def
        len_df_def users_snapshot_def)



section \<open>Properties of the scheduler\<close>

lemma seconds_Suc: "seconds (Suc k) = ReadFlag True # Sleep # seconds k"
  by (simp add: seconds_def)

lemma seconds_0: "seconds 0 = []"
  by (simp add: seconds_def)

lemma wait_interval_cut:
  "k < n \<Longrightarrow> wait_interval n (Some k) = (Some 0, seconds k @ [ReadFlag False])"
proof (induction n arbitrary: k)
  case 0
  then show ?case by simp
next
  case (Suc n)
  show ?case
  proof (cases k)
    case 0
    then show ?thesis by (simp add: seconds_0)
  next
    case (Suc j)
    with Suc.prems have "j < n" by simp
    from Suc.IH [OF this] Suc show ?thesis by (simp add: seconds_Suc)
  qed
qed

lemma wait_interval_full:
  "wait_interval n (Some (n + j)) = (Some j, seconds n)"
  by (induction n) (simp_all add: seconds_0 seconds_Suc)

lemma wait_interval_never:
  "wait_interval n None = (None, seconds n)"
  by (induction n) (simp_all add: seconds_0 seconds_Suc)

lemma wait_interval_signal:
  "wait_interval n sg = (sg', acts) \<Longrightarrow>
     (sg = None \<longrightarrow> sg' = None) \<and> (\<forall>k. sg = Some k \<longrightarrow> (\<exists>k'. sg' = Some k' \<and> k' \<le> k))"
proof (induction n arbitrary: sg sg' acts)
  case 0
  then show ?case by auto
next
  case (Suc n)
  show ?case
  proof (cases sg)
    case None
    with Suc.prems Suc.IH [of None] show ?thesis
      by (auto split: prod.splits)
  next
    case (Some k)
    show ?thesis
    proof (cases k)
      case 0
      with Some Suc.prems show ?thesis by auto
    next
      case (Suc j)
      with Some Suc.prems Suc.IH [of "Some j"] show ?thesis
        by (auto split: prod.splits)
    qed
  qed
qed

lemma stop_during_wait:
  assumes "k < nat (sync_interval s)"
  shows "sync_loop (Suc fuel) worlds (Some (Suc k)) s n =
           Some (s, n, ReadFlag True # seconds k @ [ReadFlag False, ReadFlag False])"
  using assms by (simp add: wait_interval_cut)

lemma wait_interval_Suc: "wait_interval n (Some (Suc n)) = (Some (Suc 0), seconds n)"
  using wait_interval_full [of n 1] by simp

lemma stop_during_cycle:
  "sync_loop (Suc (Suc fuel)) worlds (Some (nat (sync_interval s) + 2)) s n =
     Some (fst (perform_sync_cycle (worlds (Suc n)) s), Suc n,
           ReadFlag True # seconds (nat (sync_interval s)) @
           [ReadFlag True, Cycle (Suc n) (snd (perform_sync_cycle (worlds (Suc n)) s)),
            ReadFlag False])"
  by (simp add: wait_interval_Suc split_beta)

lemma next_iteration:
  "sync_loop (Suc fuel) worlds (Some (nat (sync_interval s) + 2 + j)) s n =
     map_option (\<lambda>(s2, m, acts).
         (s2, m, ReadFlag True # seconds (nat (sync_interval s)) @
                 [ReadFlag True, Cycle (Suc n) (snd (perform_sync_cycle (worlds (Suc n)) s))] @ acts))
       (sync_loop fuel worlds (Some j) (fst (perform_sync_cycle (worlds (Suc n)) s)) (Suc n))"
proof -
  have "wait_interval (nat (sync_interval s)) (Some (Suc (nat (sync_interval s) + j))) =
          (Some (Suc j), seconds (nat (sync_interval s)))"
    using wait_interval_full [of "nat (sync_interval s)" "Suc j"] by simp
  then show ?thesis
    by (simp add: split_beta split: option.splits)
qed

lemma checked_seconds: "checked b (seconds k @ acts) = checked (if k = 0 then b else False) acts"
  by (induction k arbitrary: b) (simp_all add: seconds_0 seconds_Suc)

lemma idle_seconds: "idle_after_stop (seconds k @ acts) = idle_after_stop acts"
  by (induction k) (simp_all add: seconds_0 seconds_Suc)

lemma wait_interval_shape:
  "wait_interval n sg = (sg', acts) \<Longrightarrow>
     acts = seconds n \<or> (\<exists>k<n. acts = seconds k @ [ReadFlag False] \<and> sg' = Some 0)"
proof (induction n arbitrary: sg sg' acts)
  case 0
  then show ?case by (simp add: seconds_0)
next
  case (Suc n)
  obtain b sg1 where r: "read_is_running sg = (b, sg1)" by (cases "read_is_running sg")
  show ?case
  proof (cases b)
    case False
    with r have "sg = Some 0"
      by (cases sg rule: read_is_running.cases) auto
    with Suc.prems have "acts = seconds 0 @ [ReadFlag False] \<and> sg' = Some 0"
      by (auto simp: seconds_0)
    then show ?thesis by blast
  next
    case True
    obtain sg2 rest where w: "wait_interval n sg1 = (sg2, rest)" by (cases "wait_interval n sg1")
    with r True Suc.prems have e: "acts = ReadFlag True # Sleep # rest" "sg' = sg2" by auto
    from Suc.IH [OF w] show ?thesis
    proof
      assume "rest = seconds n"
      with e show ?thesis by (simp add: seconds_Suc)
    next
      assume "\<exists>k<n. rest = seconds k @ [ReadFlag False] \<and> sg2 = Some 0"
      then obtain k where "k < n" "rest = seconds k @ [ReadFlag False]" "sg2 = Some 0" by blast
      with e have "Suc k < Suc n \<and> acts = seconds (Suc k) @ [ReadFlag False] \<and> sg' = Some 0"
        by (simp add: seconds_Suc)
      then show ?thesis by blast
    qed
  qed
qed

lemma sync_loop_actions:
  "sync_loop fuel worlds sg s n = Some (s', m, acts) \<Longrightarrow>
     checked False acts \<and> idle_after_stop acts"
proof (induction fuel arbitrary: sg s n s' m acts)
  case 0
  then show ?case by simp
next
  case (Suc fuel)
  obtain b sg1 where r1: "read_is_running sg = (b, sg1)" by (cases "read_is_running sg")
  show ?case
  proof (cases b)
    case False
    with r1 Suc.prems show ?thesis by auto
  next
    case True
    obtain sg2 waited where w: "wait_interval (nat (sync_interval s)) sg1 = (sg2, waited)"
      by (cases "wait_interval (nat (sync_interval s)) sg1")
    obtain b2 sg3 where r2: "read_is_running sg2 = (b2, sg3)" by (cases "read_is_running sg2")
    note shape = wait_interval_shape [OF w]
    show ?thesis
    proof (cases b2)
      case False
      with r1 True w r2 Suc.prems have a: "acts = ReadFlag True # waited @ [ReadFlag False]"
        by auto
      from shape show ?thesis
      proof
        assume "waited = seconds (nat (sync_interval s))"
        with a show ?thesis by (simp add: checked_seconds idle_seconds)
      next
        assume "\<exists>k<nat (sync_interval s). waited = seconds k @ [ReadFlag False] \<and> sg2 = Some 0"
        with a show ?thesis by (auto simp: checked_seconds idle_seconds)
      qed
    next
      case b2: True
      with r2 have "sg2 \<noteq> Some 0" by auto
      with shape have wd: "waited = seconds (nat (sync_interval s))" by auto
      obtain s1 ok where c: "perform_sync_cycle (worlds (Suc n)) s = (s1, ok)"
        by (cases "perform_sync_cycle (worlds (Suc n)) s")
      from r1 True w r2 b2 c Suc.prems obtain rest where
        l: "sync_loop fuel worlds sg3 s1 (Suc n) = Some (s', m, rest)"
        and a: "acts = ReadFlag True # waited @ [ReadFlag True, Cycle (Suc n) ok] @ rest"
        by (auto split: option.splits)
      from Suc.IH [OF l] a wd show ?thesis
        by (simp add: checked_seconds idle_seconds)
    qed
  qed
qed

lemma perform_sync_cycle_keeps:
  "sync_interval (fst (perform_sync_cycle w s)) = sync_interval s \<and>
   table_name (fst (perform_sync_cycle w s)) = table_name s"
  by (simp add: perform_sync_cycle_def Let_def split_beta
      split: option.splits bool.splits)

lemma initial_failure:
  assumes "env_ok" and "connect_to_services (worlds 0) s = (s1, Inr True)"
      and "perform_sync_cycle (worlds 1) s1 = (s2, False)"
  shows "start_continuous_sync fuel env_ok worlds sg s = Some (s2, Inr False, [Cycle 1 False])"
  using assms by (simp add: start_continuous_sync_def)

lemma sync_loop_skeleton:
  assumes "sync_loop fuel w1 sg s n = Some (s1, m1, a1)"
      and "sync_loop fuel w2 sg t n = Some (s2, m2, a2)"
      and "sync_interval t = sync_interval s"
  shows "m1 = m2 \<and> map erase_result a1 = map erase_result a2"
  using assms
proof (induction fuel arbitrary: sg s t n s1 m1 a1 s2 m2 a2)
  case 0
  then show ?case by simp
next
  case (Suc fuel)
  obtain b sg1 where r1: "read_is_running sg = (b, sg1)" by (cases "read_is_running sg")
  show ?case
  proof (cases b)
    case False
    with r1 Suc.prems show ?thesis by auto
  next
    case True
    obtain sg2 waited where w: "wait_interval (nat (sync_interval s)) sg1 = (sg2, waited)"
      by (cases "wait_interval (nat (sync_interval s)) sg1")
    obtain b2 sg3 where r2: "read_is_running sg2 = (b2, sg3)" by (cases "read_is_running sg2")
    show ?thesis
    proof (cases b2)
      case False
      with r1 True w r2 Suc.prems show ?thesis by auto
    next
      case b2: True
      obtain u1 ok1 where c1: "perform_sync_cycle (w1 (Suc n)) s = (u1, ok1)"
        by (cases "perform_sync_cycle (w1 (Suc n)) s")
      obtain u2 ok2 where c2: "perform_sync_cycle (w2 (Suc n)) t = (u2, ok2)"
        by (cases "perform_sync_cycle (w2 (Suc n)) t")
      from c1 c2 perform_sync_cycle_keeps [of "w1 (Suc n)" s]
        perform_sync_cycle_keeps [of "w2 (Suc n)" t] Suc.prems(3)
      have i: "sync_interval u2 = sync_interval u1" by simp
      from r1 True w r2 b2 c1 Suc.prems(1) obtain rest1 where
        l1: "sync_loop fuel w1 sg3 u1 (Suc n) = Some (s1, m1, rest1)"
        and e1: "a1 = ReadFlag True # waited @ [ReadFlag True, Cycle (Suc n) ok1] @ rest1"
        by (auto split: option.splits)
      from r1 True w r2 b2 c2 Suc.prems(2,3) obtain rest2 where
        l2: "sync_loop fuel w2 sg3 u2 (Suc n) = Some (s2, m2, rest2)"
        and e2: "a2 = ReadFlag True # waited @ [ReadFlag True, Cycle (Suc n) ok2] @ rest2"
        by (auto split: option.splits)
      from Suc.IH [OF l1 l2 i] e1 e2 show ?thesis by simp
    qed
  qed
qed

lemma fetches_rows_exists: "fetches_rows table_exists_query"
  by (simp add: fetches_rows_def table_exists_query_def startswith_def upper_def strip_def
      is_space_def upper_char_def)

lemma read_is_running_True:
  "read_is_running (Some k) = (True, sg) \<Longrightarrow> \<exists>j. sg = Some j \<and> k = Suc j"
  by (cases k) auto

lemma sync_loop_terminates:
  "k < fuel \<Longrightarrow> \<exists>r. sync_loop fuel worlds (Some k) s n = Some r"
proof (induction fuel arbitrary: k s n)
  case 0
  then show ?case by simp
next
  case (Suc fuel)
  obtain b sg1 where r1: "read_is_running (Some k) = (b, sg1)"
    by (cases "read_is_running (Some k)")
  show ?case
  proof (cases b)
    case False
    with r1 show ?thesis by simp
  next
    case True
    with r1 have "read_is_running (Some k) = (True, sg1)" by simp
    then obtain j where j: "sg1 = Some j" "k = Suc j"
      using read_is_running_True by blast
    obtain sg2 waited where w: "wait_interval (nat (sync_interval s)) sg1 = (sg2, waited)"
      by (cases "wait_interval (nat (sync_interval s)) sg1")
    with j wait_interval_signal [OF w] obtain j2 where j2: "sg2 = Some j2" "j2 \<le> j"
      by auto
    obtain b2 sg3 where r2: "read_is_running sg2 = (b2, sg3)" by (cases "read_is_running sg2")
    show ?thesis
    proof (cases b2)
      case False
      with r1 True w r2 show ?thesis by simp
    next
      case b2: True
      with r2 j2 have "read_is_running (Some j2) = (True, sg3)" by simp
      then obtain j3 where j3: "sg3 = Some j3" "j2 = Suc j3"
        using read_is_running_True by blast
      with j j2 Suc.prems have "j3 < fuel" by simp
      from Suc.IH [OF this] obtain r where
        "sync_loop fuel worlds (Some j3) (fst (perform_sync_cycle (worlds (Suc n)) s)) (Suc n) = Some r"
        by blast
      with r1 True w r2 b2 j3 show ?thesis
        by (simp add: split_beta)
    qed
  qed
qed

lemma query_database_keeps_open:
  "fst (query_database OpenConn srv q ps) = OpenConn"
  by (simp add: query_database_def)

lemma table_exists_keeps_open:
  "fst (table_exists OpenConn srv name) = OpenConn"
  using query_database_keeps_open [of srv table_exists_query "[name]"]
  by (auto simp: table_exists_def split: prod.splits sum.splits query_result.splits list.splits
      option.splits)

lemma get_or_create_connected:
  "get_or_create_worksheet g sh name r c = (sh1, res) \<Longrightarrow>
     connected sh1 = connected sh \<and> (document sh \<noteq> None \<longrightarrow> document sh1 \<noteq> None)"
  by (auto simp: get_or_create_worksheet_def split: if_splits option.splits)

lemma set_cells_connected:
  "connected (set_cells sh ws data) = connected sh \<and>
   (document (set_cells sh ws data) = None \<longleftrightarrow> document sh = None)"
  by (auto simp: set_cells_def split: option.splits)

lemma update_worksheet_data_connected:
  "update_worksheet_data g sh ws data = (sh1, ok) \<Longrightarrow>
     connected sh1 = connected sh \<and> (document sh1 = None \<longleftrightarrow> document sh = None)"
  by (auto simp: update_worksheet_data_def set_cells_connected split: if_splits)

lemma update_data_worksheet_connected:
  assumes "update_data_worksheet g sh d name = (sh1, ok)"
  shows "connected sh1 = connected sh \<and> (document sh \<noteq> None \<longrightarrow> document sh1 \<noteq> None)"
proof -
  obtain sh0 res where gc: "get_or_create_worksheet g sh name
             (max (len_df d + 10) 100) (max (length (columns d) + 5) 20) = (sh0, res)"
    by (cases "get_or_create_worksheet g sh name
             (max (len_df d + 10) 100) (max (length (columns d) + 5) 20)")
  note a = get_or_create_connected [OF gc]
  show ?thesis
  proof (cases res)
    case (Inl e)
    with gc assms a show ?thesis by (simp add: update_data_worksheet_def)
  next
    case (Inr o1)
    show ?thesis
    proof (cases o1)
      case None
      with Inr gc assms a show ?thesis by (simp add: update_data_worksheet_def)
    next
      case (Some ws)
      with Inr gc assms have
        "update_worksheet_data g sh0 ws (prepare_dataframe_for_upload d) = (sh1, ok)"
        by (simp add: update_data_worksheet_def)
      from update_worksheet_data_connected [OF this] a show ?thesis by simp
    qed
  qed
qed

lemma update_metadata_worksheet_connected:
  assumes "update_metadata_worksheet g sh md = (sh1, ok)"
  shows "connected sh1 = connected sh \<and> (document sh \<noteq> None \<longrightarrow> document sh1 \<noteq> None)"
proof -
  obtain sh0 res where gc: "get_or_create_worksheet g sh ''Sync_Metadata'' 10 3 = (sh0, res)"
    by (cases "get_or_create_worksheet g sh ''Sync_Metadata'' 10 3")
  note a = get_or_create_connected [OF gc]
  show ?thesis
  proof (cases res)
    case (Inl e)
    with gc assms a show ?thesis by (simp add: update_metadata_worksheet_def)
  next
    case (Inr o1)
    show ?thesis
    proof (cases o1)
      case None
      with Inr gc assms a show ?thesis by (simp add: update_metadata_worksheet_def)
    next
      case (Some ws)
      with Inr gc assms have
        "update_worksheet_data g sh0 ws (sync_info md) = (sh1, ok)"
        by (simp add: update_metadata_worksheet_def)
      from update_worksheet_data_connected [OF this] a show ?thesis by simp
    qed
  qed
qed

lemma sheets_connect_True:
  "sheets_connect g sh = (sh1, True) \<Longrightarrow> connected sh1 \<and> document sh1 \<noteq> None"
  by (auto simp: sheets_connect_def split: if_splits option.splits)

lemma setup_worksheets_connected:
  assumes "setup_worksheets g sh name = (sh1, ok)"
  shows "connected sh1 = connected sh \<and> (document sh \<noteq> None \<longrightarrow> document sh1 \<noteq> None)"
proof -
  obtain sh0 res where g1: "get_or_create_worksheet g sh (name @ ''_data'') 1000 50 = (sh0, res)"
    by (cases "get_or_create_worksheet g sh (name @ ''_data'') 1000 50")
  obtain sh2 res2 where g2: "get_or_create_worksheet g sh0 ''Sync_Metadata'' 10 3 = (sh2, res2)"
    by (cases "get_or_create_worksheet g sh0 ''Sync_Metadata'' 10 3")
  from assms g1 g2 have "sh1 = sh0 \<or> sh1 = sh2"
    by (auto simp: setup_worksheets_def split: sum.splits option.splits)
  with get_or_create_connected [OF g1] get_or_create_connected [OF g2] show ?thesis
    by auto
qed

lemma connect_to_services_True:
  assumes "connect_to_services w s = (s1, Inr True)"
  shows "db s1 = OpenConn \<and> table_name s1 = table_name s \<and>
         connected (sheets s1) \<and> document (sheets s1) \<noteq> None"
proof -
  from assms have a: "accepts (server w)"
    by (auto simp: connect_to_services_def db_connect_def split: if_splits)
  obtain c1 res where t: "table_exists OpenConn (server w) (table_name s) = (c1, res)"
    by (cases "table_exists OpenConn (server w) (table_name s)")
  with table_exists_keeps_open [of "server w" "table_name s"] have c1: "c1 = OpenConn" by simp
  obtain sh b where sc: "sheets_connect (api w) (sheets s) = (sh, b)"
    by (cases "sheets_connect (api w) (sheets s)")
  obtain sh1 ok where sw: "setup_worksheets (api w) sh (table_name s) = (sh1, ok)"
    by (cases "setup_worksheets (api w) sh (table_name s)")
  from assms a t c1 sc sw have "b" and s1: "s1 = s\<lparr>db := OpenConn, sheets := sh1\<rparr>"
    by (auto simp: connect_to_services_def db_connect_def
        split: sum.splits if_splits bool.splits)
  with sc have "connected sh \<and> document sh \<noteq> None"
    using sheets_connect_True by simp
  with setup_worksheets_connected [OF sw] s1 show ?thesis by simp
qed

lemma get_table_data_conn:
  "conn \<noteq> NoConnection \<Longrightarrow> fst (get_table_data conn srv name) \<noteq> NoConnection"
  by (cases conn) (auto simp: get_table_data_def db_connect_def)

lemma perform_sync_cycle_db:
  "db (fst (perform_sync_cycle w s)) = fst (get_table_data (db s) (server w) (table_name s))"
  by (simp add: perform_sync_cycle_def Let_def split_beta split: option.splits bool.splits)

lemma sync_loop_keeps:
  "sync_loop fuel worlds sg s n = Some (s', m, acts) \<Longrightarrow>
     table_name s' = table_name s \<and> (db s \<noteq> NoConnection \<longrightarrow> db s' \<noteq> NoConnection)"
proof (induction fuel arbitrary: sg s n acts)
  case 0
  then show ?case by simp
next
  case (Suc fuel)
  obtain b sg1 where r1: "read_is_running sg = (b, sg1)" by (cases "read_is_running sg")
  obtain sg2 waited where w: "wait_interval (nat (sync_interval s)) sg1 = (sg2, waited)"
    by (cases "wait_interval (nat (sync_interval s)) sg1")
  obtain b2 sg3 where r2: "read_is_running sg2 = (b2, sg3)" by (cases "read_is_running sg2")
  obtain s1 ok where c: "perform_sync_cycle (worlds (Suc n)) s = (s1, ok)"
    by (cases "perform_sync_cycle (worlds (Suc n)) s")
  show ?case
  proof (cases "b \<and> b2")
    case False
    with r1 w r2 Suc.prems show ?thesis by (auto split: bool.splits)
  next
    case True
    with r1 w r2 c Suc.prems obtain rest where
      l: "sync_loop fuel worlds sg3 s1 (Suc n) = Some (s', m, rest)"
      by (auto split: option.splits)
    from c perform_sync_cycle_keeps [of "worlds (Suc n)" s]
      perform_sync_cycle_db [of "worlds (Suc n)" s]
      get_table_data_conn [of "db s" "server (worlds (Suc n))" "table_name s"]
    have "table_name s1 = table_name s \<and> (db s \<noteq> NoConnection \<longrightarrow> db s1 \<noteq> NoConnection)"
      by simp
    with Suc.IH [OF l] show ?thesis by simp
  qed
qed

lemma cleanup_db: "db s \<noteq> NoConnection \<Longrightarrow> db (cleanup w s n) = ClosedConn"
  by (simp add: cleanup_def disconnect_def)

lemma cleanup_metadata:
  "\<exists>ok. update_metadata_worksheet (api w) (sheets s) (final_metadata (now w) (table_name s) n)
          = (sheets (cleanup w s n), ok) \<and>
        (ok \<longrightarrow> map_option cells (worksheet_of (sheets (cleanup w s n)) ''Sync_Metadata'') =
           Some [[''Attribute'', ''Value''],
                 [''Last Sync Time'', strftime (now w)],
                 [''Source Table'', table_name s],
                 [''Total Syncs Completed'', str_int (int n)],
                 [''Status'', ''Stopped'']])"
proof -
  obtain sh ok where u:
    "update_metadata_worksheet (api w) (sheets s) (final_metadata (now w) (table_name s) n) = (sh, ok)"
    by (cases "update_metadata_worksheet (api w) (sheets s) (final_metadata (now w) (table_name s) n)")
  then have c: "sheets (cleanup w s n) = sh" by (simp add: cleanup_def)
  have "ok \<longrightarrow> map_option cells (worksheet_of sh ''Sync_Metadata'') =
           Some [[''Attribute'', ''Value''],
                 [''Last Sync Time'', strftime (now w)],
                 [''Source Table'', table_name s],
                 [''Total Syncs Completed'', str_int (int n)],
                 [''Status'', ''Stopped'']]"
  proof
    assume ok
    with u have "update_metadata_worksheet (api w) (sheets s)
        (final_metadata (now w) (table_name s) n) = (sh, True)" by simp
    from update_metadata_worksheet_True [OF this] show
      "map_option cells (worksheet_of sh ''Sync_Metadata'') =
           Some [[''Attribute'', ''Value''],
                 [''Last Sync Time'', strftime (now w)],
                 [''Source Table'', table_name s],
                 [''Total Syncs Completed'', str_int (int n)],
                 [''Status'', ''Stopped'']]"
      by (simp add: sync_info_def final_metadata_def)
  qed
  with u c show ?thesis by auto
qed

lemma connect_to_services_interval:
  "sync_interval (fst (connect_to_services w s)) = sync_interval s"
  by (simp add: connect_to_services_def split_beta
      split: bool.splits sum.splits)

lemma users_table_exists:
  "table_exists OpenConn users_server ''users'' = (OpenConn, Inr (PyBool True))"
proof -
  have "select_all_query ''users'' \<noteq> table_exists_query"
    by (simp add: select_all_query_def table_exists_query_def)
  then have "execute users_server table_exists_query [''users''] =
          ResultSet [''exists''] [[PyBool True]]"
    by (simp add: users_server_def table_server_def)
  moreover have "commit_ok users_server"
    by (simp add: users_server_def table_server_def)
  ultimately have "run_query OpenConn users_server table_exists_query [''users''] =
      Inr (QRows [[(''exists'', PyBool True)]])"
    by (simp add: run_query_def fetches_rows_exists)
  then show ?thesis
    by (simp add: table_exists_def query_database_def dict_get_def)
qed

lemma good_api_setup:
  "connected sh \<Longrightarrow> document sh \<noteq> None \<Longrightarrow> snd (setup_worksheets good_api sh name) = True"
  by (auto simp: setup_worksheets_def get_or_create_worksheet_def good_api_def)

lemma connect_fresh:
  "snd (connect_to_services users_world fresh_continuous) = Inr True"
proof -
  have a: "db_connect NoConnection users_server = (OpenConn, True)"
    by (simp add: db_connect_def users_server_def table_server_def)
  have b: "snd (sheets_connect good_api fresh_sheets) = True"
    by (simp add: sheets_connect_def good_api_def fresh_sheets_def)
  then have "sheets_connect good_api fresh_sheets = (fst (sheets_connect good_api fresh_sheets), True)"
    by (simp add: prod_eq_iff)
  from sheets_connect_True [OF this] have
    "snd (setup_worksheets good_api (fst (sheets_connect good_api fresh_sheets)) ''users'') = True"
    by (intro good_api_setup) simp_all
  with a b show ?thesis
    by (simp add: connect_to_services_def fresh_continuous_def users_world_def
        users_table_exists split_beta)
qed

lemma failing_cycle:
  "db s = OpenConn \<Longrightarrow> snd (perform_sync_cycle failing_world s) = False"
  by (simp add: perform_sync_cycle_def get_table_data_def fetch_table_def failing_world_def
      unreachable_server_def)

lemma perform_sync_cycle_connected:
  "connected (sheets (fst (perform_sync_cycle w s))) = connected (sheets s) \<and>
   (document (sheets s) \<noteq> None \<longrightarrow> document (sheets (fst (perform_sync_cycle w s))) \<noteq> None)"
proof -
  obtain c r where g: "get_table_data (db s) (server w) (table_name s) = (c, r)"
    by (cases "get_table_data (db s) (server w) (table_name s)")
  show ?thesis
  proof (cases r)
    case None
    with g show ?thesis by (simp add: perform_sync_cycle_def)
  next
    case (Some d)
    show ?thesis
    proof (cases "len_df d = 0")
      case True
      with g Some show ?thesis by (simp add: perform_sync_cycle_def)
    next
      case False
      obtain sh1 ok1 where u:
        "update_data_worksheet (api w) (sheets s) d (table_name s @ ''_data'') = (sh1, ok1)"
        by (cases "update_data_worksheet (api w) (sheets s) d (table_name s @ ''_data'')")
      obtain sh2 ok2 where m: "update_metadata_worksheet (api w) sh1
          (continuous_metadata (now w) (table_name s) d (sync_interval s)) = (sh2, ok2)"
        by (cases "update_metadata_worksheet (api w) sh1
          (continuous_metadata (now w) (table_name s) d (sync_interval s))")
      from g Some False u m have "sheets (fst (perform_sync_cycle w s)) = sh1 \<or>
            sheets (fst (perform_sync_cycle w s)) = sh2"
        by (cases ok1) (simp_all add: perform_sync_cycle_def)
      with update_data_worksheet_connected [OF u] update_metadata_worksheet_connected [OF m]
      show ?thesis by auto
    qed
  qed
qed

lemma cycle_then_stop:
  assumes "k < nat (sync_interval s)"
  shows "sync_loop (Suc (Suc fuel)) worlds (Some (nat (sync_interval s) + 2 + Suc k)) s n =
     Some (fst (perform_sync_cycle (worlds (Suc n)) s), Suc n,
           ReadFlag True # seconds (nat (sync_interval s)) @
           [ReadFlag True, Cycle (Suc n) (snd (perform_sync_cycle (worlds (Suc n)) s)), ReadFlag True] @
           seconds k @ [ReadFlag False, ReadFlag False])"
proof -
  let ?s1 = "fst (perform_sync_cycle (worlds (Suc n)) s)"
  from assms have "k < nat (sync_interval ?s1)"
    by (simp add: perform_sync_cycle_keeps)
  from stop_during_wait [OF this, of fuel worlds "Suc n"] show ?thesis
    by (subst next_iteration) simp
qed

lemma seconds_3: "seconds 3 = [ReadFlag True, Sleep, ReadFlag True, Sleep, ReadFlag True, Sleep]"
  by (simp add: seconds_def numeral_3_eq_3)

text \<open>
  Claim C6. When the initial cycle fails, \<^verbatim>\<open>start_continuous_sync\<close> returns \<^verbatim>\<open>False\<close> with
  that one cycle as its only action, whatever the fuel and the signal are: the loop is
  not entered. Inside the loop the result of a cycle changes nothing: while no stop
  request is seen, an iteration is one read of the flag, the wait of \<^verbatim>\<open>sync_interval\<close>
  seconds, one more read and exactly one cycle, after which the loop goes on with the
  next iteration from the state the cycle left; the interval stays the same; and two
  runs under the same signal take the same actions up to the results of their cycles,
  so a failed cycle is followed by the same wait as a successful one, without a second
  attempt and without an extra delay.
\<close>

theorem failed_cycles:
  "(env_ok \<and> connect_to_services (worlds 0) s0 = (s1, Inr True) \<and>
    perform_sync_cycle (worlds 1) s1 = (s2, False) \<longrightarrow>
      start_continuous_sync fuel env_ok worlds sg s0 = Some (s2, Inr False, [Cycle 1 False])) \<and>
   sync_loop (Suc fuel) worlds (Some (nat (sync_interval s) + 2 + j)) s n =
     map_option (\<lambda>(s', m, acts).
         (s', m, ReadFlag True # seconds (nat (sync_interval s)) @
                 [ReadFlag True, Cycle (Suc n) (snd (perform_sync_cycle (worlds (Suc n)) s))] @ acts))
       (sync_loop fuel worlds (Some j) (fst (perform_sync_cycle (worlds (Suc n)) s)) (Suc n)) \<and>
   sync_interval (fst (perform_sync_cycle (worlds (Suc n)) s)) = sync_interval s \<and>
   (sync_loop fuel worlds sg s n = Some (t1, m1, a1) \<and>
    sync_loop fuel worlds' sg s n = Some (t2, m2, a2) \<longrightarrow>
      m1 = m2 \<and> map erase_result a1 = map erase_result a2)"
  using initial_failure [of env_ok worlds s0 s1 s2 fuel sg]
    next_iteration [of fuel worlds s j n]
    perform_sync_cycle_keeps [of "worlds (Suc n)" s]
    sync_loop_skeleton [of fuel worlds sg s n t1 m1 a1 worlds' s t2 m2 a2]
  by blast

theorem failed_cycles_witness:
  "snd (connect_to_services (cycles_fail 0) fresh_continuous) = Inr True \<and>
   snd (perform_sync_cycle (cycles_fail 1)
          (fst (connect_to_services (cycles_fail 0) fresh_continuous))) = False \<and>
   start_continuous_sync 0 True cycles_fail None fresh_continuous =
     Some (fst (perform_sync_cycle (cycles_fail 1)
                 (fst (connect_to_services (cycles_fail 0) fresh_continuous))),
           Inr False, [Cycle 1 False]) \<and>
   sync_loop 2 cycles_fail (Some 65) synced_continuous 1 =
     Some (fst (perform_sync_cycle failing_world synced_continuous), 2,
           ReadFlag True # seconds 60 @ [ReadFlag True, Cycle 2 False, ReadFlag True] @
           seconds 2 @ [ReadFlag False, ReadFlag False]) \<and>
   sync_loop 2 (\<lambda>n. users_world) (Some 65) synced_continuous 1 =
     Some (fst (perform_sync_cycle users_world synced_continuous), 2,
           ReadFlag True # seconds 60 @ [ReadFlag True, Cycle 2 True, ReadFlag True] @
           seconds 2 @ [ReadFlag False, ReadFlag False]) \<and>
   map erase_result (ReadFlag True # seconds 60 @ [ReadFlag True, Cycle 2 False, ReadFlag True] @
           seconds 2 @ [ReadFlag False, ReadFlag False]) =
   map erase_result (ReadFlag True # seconds 60 @ [ReadFlag True, Cycle 2 True, ReadFlag True] @
           seconds 2 @ [ReadFlag False, ReadFlag False])"
proof -
  let ?s1 = "fst (connect_to_services (cycles_fail 0) fresh_continuous)"
  let ?s2 = "fst (perform_sync_cycle (cycles_fail 1) ?s1)"
  let ?f = "fst (perform_sync_cycle failing_world synced_continuous)"
  let ?u = "fst (perform_sync_cycle users_world synced_continuous)"
  let ?af = "ReadFlag True # seconds 60 @ [ReadFlag True, Cycle 2 False, ReadFlag True] @
           seconds 2 @ [ReadFlag False, ReadFlag False]"
  let ?au = "ReadFlag True # seconds 60 @ [ReadFlag True, Cycle 2 True, ReadFlag True] @
           seconds 2 @ [ReadFlag False, ReadFlag False]"
  have c0: "snd (connect_to_services (cycles_fail 0) fresh_continuous) = Inr True"
    using connect_fresh by simp
  then have c: "connect_to_services (cycles_fail 0) fresh_continuous = (?s1, Inr True)"
    by (simp add: prod_eq_iff)
  from connect_to_services_True [OF c] have "db ?s1 = OpenConn" by simp
  from failing_cycle [OF this]
  have p0: "snd (perform_sync_cycle (cycles_fail 1) ?s1) = False" by simp
  then have p: "perform_sync_cycle (cycles_fail 1) ?s1 = (?s2, False)"
    by (simp add: prod_eq_iff)
  have i: "nat (sync_interval synced_continuous) = 60"
    by (simp add: synced_continuous_def)
  have f: "snd (perform_sync_cycle failing_world synced_continuous) = False"
    by (rule failing_cycle) (simp add: synced_continuous_def)
  have u: "snd (perform_sync_cycle users_world synced_continuous) = True"
    by (rule continuous_succeeds)
  have k: "(2::nat) < nat (sync_interval synced_continuous)"
    by (simp add: i)
  have cf: "cycles_fail 2 = failing_world"
    by (simp add: numeral_2_eq_2)
  from cycle_then_stop [OF k, of 0 cycles_fail 1] f
  have B: "sync_loop 2 cycles_fail (Some 65) synced_continuous 1 = Some (?f, 2, ?af)"
    by (simp add: i cf numeral_2_eq_2 [symmetric] del: sync_loop.simps)
  from cycle_then_stop [OF k, of 0 "\<lambda>n. users_world" 1] u
  have C: "sync_loop 2 (\<lambda>n. users_world) (Some 65) synced_continuous 1 = Some (?u, 2, ?au)"
    by (simp add: i numeral_2_eq_2 [symmetric] del: sync_loop.simps)
  from failed_cycles [where env_ok = True and worlds = cycles_fail and ?s0.0 = fresh_continuous
      and ?s1.0 = ?s1 and ?s2.0 = ?s2 and fuel = 0 and sg = None] c p
  have A: "start_continuous_sync 0 True cycles_fail None fresh_continuous =
     Some (?s2, Inr False, [Cycle 1 False])"
    by blast
  from failed_cycles [where fuel = 2 and worlds = cycles_fail and sg = "Some 65"
      and s = synced_continuous and n = 1 and ?t1.0 = ?f and ?m1.0 = 2 and ?a1.0 = ?af
      and worlds' = "\<lambda>n. users_world" and ?t2.0 = ?u and ?m2.0 = 2 and ?a2.0 = ?au] B C
  have D: "map erase_result ?af = map erase_result ?au"
    by blast
  from c0 p0 A B C D show ?thesis by blast
qed

text \<open>
  Claim C7. The wait consists of steps of one read of the flag and one sleep of one
  second. A stop request that arrives during the wait, after \<open>k\<close> reads have still seen
  \<^verbatim>\<open>True\<close>, ends the wait after \<open>k\<close> sleeps instead of the whole interval: the sleep in
  progress is the last one, the next read sees the request and the loop ends without a
  further cycle. A request that arrives while a cycle runs is seen at the next read,
  after the cycle has run to its end. In every run of the loop that ends, each sleep and
  each cycle comes directly after a read that saw \<^verbatim>\<open>True\<close>, and after the first read that
  saw \<^verbatim>\<open>False\<close> there is no sleep and no cycle. Time is counted in sleeps of one second;
  the reads themselves take no time in this model.
\<close>

theorem stop_is_observed:
  "wait_interval i None = (None, seconds i) \<and>
   (k < i \<longrightarrow> wait_interval i (Some k) = (Some 0, seconds k @ [ReadFlag False])) \<and>
   (k < nat (sync_interval s) \<longrightarrow>
      sync_loop (Suc fuel) worlds (Some (Suc k)) s n =
        Some (s, n, ReadFlag True # seconds k @ [ReadFlag False, ReadFlag False])) \<and>
   sync_loop (Suc (Suc fuel)) worlds (Some (nat (sync_interval s) + 2)) s n =
     Some (fst (perform_sync_cycle (worlds (Suc n)) s), Suc n,
           ReadFlag True # seconds (nat (sync_interval s)) @
           [ReadFlag True, Cycle (Suc n) (snd (perform_sync_cycle (worlds (Suc n)) s)),
            ReadFlag False]) \<and>
   (sync_loop fuel' worlds sg s n = Some (s', m, acts) \<longrightarrow>
      checked False acts \<and> idle_after_stop acts)"
  using wait_interval_never [of i] wait_interval_cut [of k i]
    stop_during_wait [of k s fuel worlds n] stop_during_cycle [of fuel worlds s n]
    sync_loop_actions [of fuel' worlds sg s n s' m acts]
  by blast

theorem stop_is_observed_witness:
  "(3::nat) < 60 \<and> 3 < nat (sync_interval synced_continuous) \<and>
   wait_interval 60 (Some 3) =
     (Some 0, [ReadFlag True, Sleep, ReadFlag True, Sleep, ReadFlag True, Sleep, ReadFlag False]) \<and>
   sync_loop 1 (\<lambda>n. users_world) (Some 4) synced_continuous 1 =
     Some (synced_continuous, 1,
           [ReadFlag True, ReadFlag True, Sleep, ReadFlag True, Sleep, ReadFlag True, Sleep,
            ReadFlag False, ReadFlag False]) \<and>
   checked False [ReadFlag True, ReadFlag True, Sleep, ReadFlag True, Sleep, ReadFlag True, Sleep,
            ReadFlag False, ReadFlag False] \<and>
   idle_after_stop [ReadFlag True, ReadFlag True, Sleep, ReadFlag True, Sleep, ReadFlag True, Sleep,
            ReadFlag False, ReadFlag False]"
proof -
  let ?acts = "[ReadFlag True, ReadFlag True, Sleep, ReadFlag True, Sleep, ReadFlag True, Sleep,
            ReadFlag False, ReadFlag False]"
  have i: "(3::nat) < 60" "3 < nat (sync_interval synced_continuous)"
    by (simp_all add: synced_continuous_def)
  note t = stop_is_observed [where i = 60 and k = 3 and s = synced_continuous and fuel = 0
      and worlds = "\<lambda>n. users_world" and n = 1 and fuel' = 1 and sg = "Some 4"
      and s' = synced_continuous and m = 1 and acts = ?acts]
  from t i have w: "wait_interval 60 (Some 3) = (Some 0, seconds 3 @ [ReadFlag False])"
    by blast
  from t i have "sync_loop (Suc 0) (\<lambda>n. users_world) (Some (Suc 3)) synced_continuous 1 =
        Some (synced_continuous, 1, ReadFlag True # seconds 3 @ [ReadFlag False, ReadFlag False])"
    by blast
  then have l: "sync_loop 1 (\<lambda>n. users_world) (Some 4) synced_continuous 1 =
        Some (synced_continuous, 1, ?acts)"
    by (simp add: seconds_3 del: sync_loop.simps)
  with t have "checked False ?acts \<and> idle_after_stop ?acts"
    by blast
  with i w l show ?thesis
    by (simp add: seconds_3 del: sync_loop.simps)
qed

text \<open>
  Claim C8. When the connection phase and the initial cycle have succeeded and a stop
  request arrives, the loop ends (fuel above the number of reads before the request is
  enough), \<^verbatim>\<open>start_continuous_sync\<close> returns \<^verbatim>\<open>True\<close>, the database connection is closed,
  and the final metadata record with the status \<^verbatim>\<open>Stopped\<close> has been handed to
  \<^verbatim>\<open>update_metadata_worksheet\<close>. Whether that write succeeds does not change the result;
  when it succeeds, the metadata worksheet holds the record.
\<close>

theorem graceful_shutdown:
  assumes "env_ok" and "connect_to_services (worlds 0) s = (s1, Inr True)"
      and "perform_sync_cycle (worlds 1) s1 = (s2, True)" and "k < fuel"
  shows "\<exists>s3 n acts ok.
           sync_loop fuel worlds (Some k) s2 1 = Some (s3, n, acts) \<and>
           start_continuous_sync fuel env_ok worlds (Some k) s =
             Some (cleanup (worlds (Suc n)) s3 n, Inr True, Cycle 1 True # acts) \<and>
           db (cleanup (worlds (Suc n)) s3 n) = ClosedConn \<and>
           update_metadata_worksheet (api (worlds (Suc n))) (sheets s3)
               (final_metadata (now (worlds (Suc n))) (table_name s) n)
             = (sheets (cleanup (worlds (Suc n)) s3 n), ok) \<and>
           (ok \<longrightarrow>
              map_option cells
                  (worksheet_of (sheets (cleanup (worlds (Suc n)) s3 n)) ''Sync_Metadata'') =
                Some [[''Attribute'', ''Value''],
                      [''Last Sync Time'', strftime (now (worlds (Suc n)))],
                      [''Source Table'', table_name s],
                      [''Total Syncs Completed'', str_int (int n)],
                      [''Status'', ''Stopped'']])"
proof -
  from sync_loop_terminates [OF assms(4)] obtain s3 n acts where
    l: "sync_loop fuel worlds (Some k) s2 1 = Some (s3, n, acts)"
    by (metis prod_cases3)
  from connect_to_services_True [OF assms(2)] have
    s1: "db s1 = OpenConn" "table_name s1 = table_name s" by simp_all
  from assms(3) perform_sync_cycle_keeps [of "worlds 1" s1]
    perform_sync_cycle_db [of "worlds 1" s1]
    get_table_data_conn [of "db s1" "server (worlds 1)" "table_name s1"] s1
  have s2: "table_name s2 = table_name s" "db s2 \<noteq> NoConnection" by simp_all
  with sync_loop_keeps [OF l] have s3: "table_name s3 = table_name s" "db s3 \<noteq> NoConnection"
    by simp_all
  from assms(1,2,3) l have r: "start_continuous_sync fuel env_ok worlds (Some k) s =
             Some (cleanup (worlds (Suc n)) s3 n, Inr True, Cycle 1 True # acts)"
    by (simp add: start_continuous_sync_def)
  from cleanup_metadata [of "worlds (Suc n)" s3 n] s3(1) obtain ok where
    "update_metadata_worksheet (api (worlds (Suc n))) (sheets s3)
               (final_metadata (now (worlds (Suc n))) (table_name s) n)
             = (sheets (cleanup (worlds (Suc n)) s3 n), ok)"
    "ok \<longrightarrow>
              map_option cells
                  (worksheet_of (sheets (cleanup (worlds (Suc n)) s3 n)) ''Sync_Metadata'') =
                Some [[''Attribute'', ''Value''],
                      [''Last Sync Time'', strftime (now (worlds (Suc n)))],
                      [''Source Table'', table_name s],
                      [''Total Syncs Completed'', str_int (int n)],
                      [''Status'', ''Stopped'']]"
    by auto
  with l r cleanup_db [OF s3(2)] show ?thesis by blast
qed

theorem graceful_shutdown_witness:
  "snd (connect_to_services users_world fresh_continuous) = Inr True \<and>
   snd (perform_sync_cycle users_world
          (fst (connect_to_services users_world fresh_continuous))) = True \<and>
   (3::nat) < 4 \<and>
   map_option (\<lambda>(s, r, acts). (r, db s, acts))
       (start_continuous_sync 4 True (\<lambda>n. users_world) (Some 3) fresh_continuous) =
     Some (Inr True, ClosedConn,
           [Cycle 1 True, ReadFlag True, ReadFlag True, Sleep, ReadFlag True, Sleep,
            ReadFlag False, ReadFlag False]) \<and>
   map_option (\<lambda>(s, r, acts). map_option cells (worksheet_of (sheets s) ''Sync_Metadata''))
       (start_continuous_sync 4 True (\<lambda>n. users_world) (Some 3) fresh_continuous) =
     Some (Some [[''Attribute'', ''Value''],
                 [''Last Sync Time'', ''2024-01-01 00:00:00''],
                 [''Source Table'', ''users''],
                 [''Total Syncs Completed'', ''1''],
                 [''Status'', ''Stopped'']])"
proof -
  let ?w = "\<lambda>n::nat. users_world"
  let ?s1 = "fst (connect_to_services users_world fresh_continuous)"
  let ?s2 = "fst (perform_sync_cycle users_world ?s1)"
  have c: "connect_to_services (?w 0) fresh_continuous = (?s1, Inr True)"
    using connect_fresh by (simp add: prod_eq_iff)
  note s1 = connect_to_services_True [OF c]
  have r: "get_table_data (db ?s1) (server users_world) (table_name ?s1) =
             (OpenConn, Some users_snapshot)"
    using s1 by (simp add: users_read users_world_def fresh_continuous_def)
  have p0: "snd (perform_sync_cycle users_world ?s1) = True"
    by (rule continuous_good [OF r]) (use s1 in \<open>simp_all add: len_df_def users_snapshot_def users_world_def\<close>)
  then have p: "perform_sync_cycle (?w 1) ?s1 = (?s2, True)"
    by (simp add: prod_eq_iff)
  have i: "nat (sync_interval ?s2) = 60"
    by (simp add: perform_sync_cycle_keeps connect_to_services_interval fresh_continuous_def)
  have l: "sync_loop 4 ?w (Some 3) ?s2 1 =
             Some (?s2, 1, ReadFlag True # seconds 2 @ [ReadFlag False, ReadFlag False])"
    using stop_during_wait [of 2 ?s2 3 ?w 1] i by (simp del: sync_loop.simps)
  from graceful_shutdown [of True ?w fresh_continuous ?s1 ?s2 3 4] c p
  obtain s3 n acts ok where
    g: "sync_loop 4 ?w (Some 3) ?s2 1 = Some (s3, n, acts)"
       "start_continuous_sync 4 True ?w (Some 3) fresh_continuous =
             Some (cleanup (?w (Suc n)) s3 n, Inr True, Cycle 1 True # acts)"
       "db (cleanup (?w (Suc n)) s3 n) = ClosedConn"
       "update_metadata_worksheet (api (?w (Suc n))) (sheets s3)
               (final_metadata (now (?w (Suc n))) (table_name fresh_continuous) n)
             = (sheets (cleanup (?w (Suc n)) s3 n), ok)"
       "ok \<longrightarrow>
              map_option cells
                  (worksheet_of (sheets (cleanup (?w (Suc n)) s3 n)) ''Sync_Metadata'') =
                Some [[''Attribute'', ''Value''],
                      [''Last Sync Time'', strftime (now (?w (Suc n)))],
                      [''Source Table'', table_name fresh_continuous],
                      [''Total Syncs Completed'', str_int (int n)],
                      [''Status'', ''Stopped'']]"
    by auto
  from g(1) l have e: "s3 = ?s2" "n = 1"
    "acts = ReadFlag True # seconds 2 @ [ReadFlag False, ReadFlag False]"
    by simp_all
  have "connected (sheets ?s2) \<and> document (sheets ?s2) \<noteq> None"
    using s1 perform_sync_cycle_connected [of users_world ?s1] by simp
  then have "snd (update_metadata_worksheet good_api (sheets ?s2)
                    (final_metadata new_year ''users'' 1)) = True"
    by (intro good_api_metadata) simp_all
  with g(4) e have ok by (simp add: users_world_def fresh_continuous_def)
  with g(5) e have m: "map_option cells
                  (worksheet_of (sheets (cleanup users_world ?s2 1)) ''Sync_Metadata'') =
                Some [[''Attribute'', ''Value''],
                      [''Last Sync Time'', ''2024-01-01 00:00:00''],
                      [''Source Table'', ''users''],
                      [''Total Syncs Completed'', ''1''],
                      [''Status'', ''Stopped'']]"
    by (simp add: users_world_def fresh_continuous_def strftime_new_year str_int_small digit_char_def)
  have s2: "seconds 2 = [ReadFlag True, Sleep, ReadFlag True, Sleep]"
    by (simp add: seconds_def numeral_2_eq_2)
  from g(2,3) e m connect_fresh p0 show ?thesis
    by (simp add: s2)
qed

section \<open>Queries on a closed connection\<close>

lemma run_query_closed: "run_query ClosedConn srv q ps = Inl InterfaceError"
  by (simp add: run_query_def rollback_handler_def)

lemma query_database_closed:
  "query_database ClosedConn srv q ps = (ClosedConn, Inl InterfaceError)"
  by (simp add: query_database_def run_query_closed)

lemma query_database_leaves_closed:
  "accepts srv \<Longrightarrow> fst (query_database NoConnection srv q ps) = ClosedConn"
  by (simp add: query_database_def db_connect_def disconnect_def)

text \<open>On a connection that is not closed, and with a \<^verbatim>\<open>rollback\<close> that works,
  \<^verbatim>\<open>query_database\<close> returns; and \<^verbatim>\<open>table_exists\<close> answers \<^verbatim>\<open>False\<close> whenever
  \<^verbatim>\<open>query_database\<close> returns \<^verbatim>\<open>None\<close>.\<close>

lemma query_database_returns:
  assumes "conn \<noteq> ClosedConn" and "rollback_ok srv"
  shows "\<exists>r. snd (query_database conn srv q ps) = Inr r"
  using assms
  by (cases conn)
     (auto simp: query_database_def db_connect_def run_query_def rollback_handler_def
        split: exec_outcome.splits)

lemma query_database_None_table_exists:
  "query_database conn srv table_exists_query [name] = (c, Inr QNone) \<Longrightarrow>
   table_exists conn srv name = (c, Inr (PyBool False))"
  by (simp add: table_exists_def)

lemma users_exists_fresh:
  "table_exists NoConnection users_server ''users'' = (ClosedConn, Inr (PyBool True))"
proof -
  have "select_all_query ''users'' \<noteq> table_exists_query"
    by (simp add: select_all_query_def table_exists_query_def)
  then have "execute users_server table_exists_query [''users''] =
          ResultSet [''exists''] [[PyBool True]]"
    by (simp add: users_server_def table_server_def)
  moreover have "commit_ok users_server" "accepts users_server"
    by (simp_all add: users_server_def table_server_def)
  ultimately have "query_database NoConnection users_server table_exists_query [''users''] =
      (ClosedConn, Inr (QRows [[(''exists'', PyBool True)]]))"
    by (simp add: query_database_def db_connect_def disconnect_def run_query_def
        fetches_rows_exists)
  then show ?thesis
    by (simp add: table_exists_def dict_get_def)
qed

text \<open>
  Claim C9 at a closed connection. The first \<^verbatim>\<open>table_exists\<close> on a new
  \<^verbatim>\<open>DatabaseConnection\<close> finds the table; \<^verbatim>\<open>query_database\<close> has closed the connection it
  opened and left the closed object in \<^verbatim>\<open>self.connection\<close>. The second call does not
  reconnect: the existence query fails at \<^verbatim>\<open>cursor()\<close>, the \<^verbatim>\<open>rollback()\<close> of the handler
  raises as well, and \<^verbatim>\<open>table_exists\<close> raises \<^verbatim>\<open>InterfaceError\<close> instead of returning
  \<^verbatim>\<open>False\<close>.
\<close>

theorem table_exists_raises_on_closed_connection:
  "table_exists NoConnection users_server ''users'' = (ClosedConn, Inr (PyBool True)) \<and>
   table_exists (fst (table_exists NoConnection users_server ''users'')) users_server ''users'' =
     (ClosedConn, Inl InterfaceError)"
  by (simp add: users_exists_fresh) (simp add: table_exists_def query_database_closed)

text \<open>
  Claim C10 at a closed connection. The first \<^verbatim>\<open>query_database\<close> on a new
  \<^verbatim>\<open>DatabaseConnection\<close> returns the row of the existence query and leaves the connection
  closed; the second one raises \<^verbatim>\<open>InterfaceError\<close>: nothing is rolled back and \<^verbatim>\<open>None\<close> is
  not returned.
\<close>

theorem query_database_raises_on_closed_connection:
  "query_database NoConnection users_server table_exists_query [''users''] =
     (ClosedConn, Inr (QRows [[(''exists'', PyBool True)]])) \<and>
   query_database
       (fst (query_database NoConnection users_server table_exists_query [''users'']))
       users_server table_exists_query [''users''] =
     (ClosedConn, Inl InterfaceError)"
proof -
  have "select_all_query ''users'' \<noteq> table_exists_query"
    by (simp add: select_all_query_def table_exists_query_def)
  then have "execute users_server table_exists_query [''users''] =
          ResultSet [''exists''] [[PyBool True]]"
    by (simp add: users_server_def table_server_def)
  moreover have "commit_ok users_server" "accepts users_server"
    by (simp_all add: users_server_def table_server_def)
  ultimately have "query_database NoConnection users_server table_exists_query [''users''] =
      (ClosedConn, Inr (QRows [[(''exists'', PyBool True)]]))"
    by (simp add: query_database_def db_connect_def disconnect_def run_query_def
        fetches_rows_exists)
  then show ?thesis
    by (simp add: query_database_closed)
qed

end
